theory Spec2Isabelle
  imports
    Complex_Main
    "HOL-Library.Char_ord"
    "HOL-Library.List_Lexorder"
    "HOL-Library.Product_Lexorder"
    "HOL-Library.Multiset"
begin

section \<open>Python values\<close>

text \<open>
  The objects that \<^verbatim>\<open>freq_models.py\<close>, \<^verbatim>\<open>freq_counter.py\<close> and
  \<^verbatim>\<open>freq_utils.py\<close> handle: \<^verbatim>\<open>None\<close>, \<^verbatim>\<open>bool\<close>, \<^verbatim>\<open>int\<close>,
  \<^verbatim>\<open>str\<close>, and instances of the three classes \<^verbatim>\<open>Pair\<close>, \<^verbatim>\<open>TwoGram\<close>
  (a subclass of \<^verbatim>\<open>Pair\<close>) and \<^verbatim>\<open>Frequency\<close>. The slots of a pair hold
  arbitrary objects, so the type is recursive. A \<^verbatim>\<open>str\<close> is a \<^typ>\<open>string\<close>,
  ordered lexicographically by character code, as Python orders strings. Floats are left
  out of the objects; an object is a value, so two names for one object are not told
  apart from two equal objects.

  A \<^verbatim>\<open>Frequency\<close> keeps its count as an integer: a \<^verbatim>\<open>bool\<close> count (which
  \<^verbatim>\<open>isinstance(freq, int)\<close> admits) is kept as its integer value, which is what
  the comparisons, the hash and the \<^verbatim>\<open>{:>6}\<close> format read; only
  \<^verbatim>\<open>Frequency.__str__\<close> would print such a count as \<^verbatim>\<open>True\<close> or \<^verbatim>\<open>False\<close>.

  The exceptions the code can raise are \<^verbatim>\<open>ValueError\<close> (with its message), the
  \<^verbatim>\<open>TypeError\<close> of an unsupported \<^verbatim>\<open><\<close>, the \<^verbatim>\<open>AttributeError\<close> of a
  missing attribute and \<^verbatim>\<open>ZeroDivisionError\<close>.
\<close>

datatype error = ValueError string | TypeError | AttributeError | ZeroDivisionError

datatype pyobj =
    PNone
  | PBool bool
  | PInt int
  | PStr string
  | PPair pyobj pyobj
  | PTwoGram pyobj pyobj
  | PFrequency pyobj int

datatype pytype =
  class_NoneType | class_bool | class_int | class_str | class_Pair | class_TwoGram | class_Frequency

fun py_type :: "pyobj \<Rightarrow> pytype" where
  "py_type PNone = class_NoneType"
| "py_type (PBool b) = class_bool"
| "py_type (PInt i) = class_int"
| "py_type (PStr s) = class_str"
| "py_type (PPair a b) = class_Pair"
| "py_type (PTwoGram a b) = class_TwoGram"
| "py_type (PFrequency t c) = class_Frequency"

text \<open>\<^verbatim>\<open>bool\<close> is a subclass of \<^verbatim>\<open>int\<close>, \<^verbatim>\<open>TwoGram\<close> of \<^verbatim>\<open>Pair\<close>.\<close>

definition issubclass :: "pytype \<Rightarrow> pytype \<Rightarrow> bool" where
  "issubclass c d \<longleftrightarrow>
     c = d \<or> (c = class_bool \<and> d = class_int) \<or> (c = class_TwoGram \<and> d = class_Pair)"

definition isinstance :: "pyobj \<Rightarrow> pytype \<Rightarrow> bool" where
  "isinstance x c \<longleftrightarrow> issubclass (py_type x) c"

text \<open>The integer an \<^verbatim>\<open>int\<close> instance stands for (\<^verbatim>\<open>True\<close> is 1).\<close>

fun int_val :: "pyobj \<Rightarrow> int option" where
  "int_val (PInt i) = Some i"
| "int_val (PBool b) = Some (if b then 1 else 0)"
| "int_val _ = None"

section \<open>Comparison: the operators and the comparators of \<^verbatim>\<open>freq_models.py\<close>\<close>

text \<open>
  \<open>py_eq a b\<close> is \<^verbatim>\<open>a == b\<close> and \<open>py_lt a b\<close> is \<^verbatim>\<open>a < b\<close>, with Python's
  dispatch written out:
  \<^item> the left operand's method runs first, except that when the right operand's class is
    a proper subclass of the left operand's class the right operand's reflected method
    runs first. The only such pair of classes here is \<^verbatim>\<open>Pair\<close> and \<^verbatim>\<open>TwoGram\<close>:
    \<^verbatim>\<open>Pair(..) == TwoGram(..)\<close> runs \<^verbatim>\<open>TwoGram.__eq__\<close> on the right operand,
    which answers \<^verbatim>\<open>False\<close> because the left operand is no \<^verbatim>\<open>TwoGram\<close>;
  \<^item> a built-in operand that does not know the other answers \<^verbatim>\<open>NotImplemented\<close>, and
    the other operand's reflected method (\<^verbatim>\<open>__eq__\<close> for \<^verbatim>\<open>==\<close>,
    \<^verbatim>\<open>__gt__\<close> for \<^verbatim>\<open><\<close>) is asked;
  \<^item> when both answer \<^verbatim>\<open>NotImplemented\<close>, \<^verbatim>\<open>==\<close> compares identities (different
    objects: \<^verbatim>\<open>False\<close>) and \<^verbatim>\<open><\<close> raises \<^verbatim>\<open>TypeError\<close>.

  The bodies are those of the source:
  \<^verbatim>\<open>Frequency.__eq__\<close> is \<^verbatim>\<open>_compare_frequency(other) == 0\<close>,
  \<^verbatim>\<open>Frequency.__lt__\<close> is \<^verbatim>\<open>_compare_frequency(other) == -1\<close>,
  \<^verbatim>\<open>Frequency.__gt__\<close> is \<^verbatim>\<open>_compare_frequency(other) == 1\<close>,
  \<^verbatim>\<open>TwoGram.__lt__\<close> is \<^verbatim>\<open>_compare_token_pairs(other) == -1\<close>,
  \<^verbatim>\<open>TwoGram.__gt__\<close> is \<^verbatim>\<open>_compare_token_pairs(other) == 1\<close>, and
  \<^verbatim>\<open>Pair.__eq__\<close>, \<^verbatim>\<open>TwoGram.__eq__\<close> compare the slots with a short-circuit
  \<^verbatim>\<open>and\<close> after their \<^verbatim>\<open>isinstance\<close> test. \<^verbatim>\<open>Pair\<close> defines no ordering.
\<close>

function (sequential)
    py_eq :: "pyobj \<Rightarrow> pyobj \<Rightarrow> error + bool"
and py_lt :: "pyobj \<Rightarrow> pyobj \<Rightarrow> error + bool"
and compare_tokens :: "pyobj \<Rightarrow> pyobj \<Rightarrow> error + int"
and compare_token_pairs :: "pyobj \<Rightarrow> pyobj \<Rightarrow> error + int"
and compare_frequency :: "pyobj \<Rightarrow> pyobj \<Rightarrow> error + int"
where
  \<comment> \<open>\<^verbatim>\<open>Frequency.__eq__(self, other)\<close>\<close>
  "py_eq (PFrequency t c) other =
     (case compare_frequency (PFrequency t c) other of
        Inl e \<Rightarrow> Inl e | Inr r \<Rightarrow> Inr (r = 0))"
  \<comment> \<open>\<^verbatim>\<open>TwoGram.__eq__(self, other)\<close>\<close>
| "py_eq (PTwoGram a b) other =
     (case other of
        PTwoGram c d \<Rightarrow>
          (case py_eq a c of
             Inl e \<Rightarrow> Inl e
           | Inr False \<Rightarrow> Inr False
           | Inr True \<Rightarrow> py_eq b d)
      | _ \<Rightarrow> Inr False)"
  \<comment> \<open>the right operand is of a subclass: \<^verbatim>\<open>TwoGram.__eq__(other, self)\<close> runs first\<close>
| "py_eq (PPair a b) (PTwoGram c d) = Inr False"
  \<comment> \<open>\<^verbatim>\<open>Pair.__eq__(self, other)\<close>\<close>
| "py_eq (PPair a b) other =
     (case other of
        PPair c d \<Rightarrow>
          (case py_eq a c of
             Inl e \<Rightarrow> Inl e
           | Inr False \<Rightarrow> Inr False
           | Inr True \<Rightarrow> py_eq b d)
      | _ \<Rightarrow> Inr False)"
  \<comment> \<open>a built-in on the left: reflected \<^verbatim>\<open>Frequency.__eq__(other, self)\<close>\<close>
| "py_eq a (PFrequency t c) =
     (case compare_frequency (PFrequency t c) a of
        Inl e \<Rightarrow> Inl e | Inr r \<Rightarrow> Inr (r = 0))"
| "py_eq PNone PNone = Inr True"
| "py_eq (PStr s) (PStr s') = Inr (s = s')"
  \<comment> \<open>numbers compare by value; everything else is unequal\<close>
| "py_eq a b =
     (case (int_val a, int_val b) of
        (Some i, Some j) \<Rightarrow> Inr (i = j)
      | _ \<Rightarrow> Inr False)"
  \<comment> \<open>\<^verbatim>\<open>TwoGram.__lt__(self, other)\<close>\<close>
| "py_lt (PTwoGram a b) other =
     (case compare_token_pairs (PTwoGram a b) other of
        Inl e \<Rightarrow> Inl e | Inr r \<Rightarrow> Inr (r = - 1))"
  \<comment> \<open>\<^verbatim>\<open>Frequency.__lt__(self, other)\<close>\<close>
| "py_lt (PFrequency t c) other =
     (case compare_frequency (PFrequency t c) other of
        Inl e \<Rightarrow> Inl e | Inr r \<Rightarrow> Inr (r = - 1))"
  \<comment> \<open>reflected \<^verbatim>\<open>TwoGram.__gt__(other, self)\<close>\<close>
| "py_lt a (PTwoGram c d) =
     (case compare_token_pairs (PTwoGram c d) a of
        Inl e \<Rightarrow> Inl e | Inr r \<Rightarrow> Inr (r = 1))"
  \<comment> \<open>reflected \<^verbatim>\<open>Frequency.__gt__(other, self)\<close>\<close>
| "py_lt a (PFrequency t c) =
     (case compare_frequency (PFrequency t c) a of
        Inl e \<Rightarrow> Inl e | Inr r \<Rightarrow> Inr (r = 1))"
| "py_lt (PStr s) (PStr s') = Inr (s < s')"
| "py_lt a b =
     (case (int_val a, int_val b) of
        (Some i, Some j) \<Rightarrow> Inr (i < j)
      | _ \<Rightarrow> Inl TypeError)"
  \<comment> \<open>\<^verbatim>\<open>_compare_tokens(t1, t2)\<close>\<close>
| "compare_tokens t1 t2 =
     (if t1 = PNone \<and> t2 = PNone then Inr 0
      else if t1 = PNone then Inr (- 1)
      else if t2 = PNone then Inr 1
      else (case py_eq t1 t2 of
              Inl e \<Rightarrow> Inl e
            | Inr True \<Rightarrow> Inr 0
            | Inr False \<Rightarrow>
                (case py_lt t1 t2 of
                   Inl e \<Rightarrow> Inl e
                 | Inr l \<Rightarrow> Inr (if l then - 1 else 1))))"
  \<comment> \<open>\<^verbatim>\<open>TwoGram._compare_token_pairs(self, other)\<close>\<close>
| "compare_token_pairs (PTwoGram a b) (PTwoGram c d) =
     (case compare_tokens a c of
        Inl e \<Rightarrow> Inl e
      | Inr first_tokens \<Rightarrow>
          if first_tokens \<noteq> 0 then Inr first_tokens else compare_tokens b d)"
| "compare_token_pairs self other = Inr 1"
  \<comment> \<open>\<^verbatim>\<open>Frequency._compare_frequency(self, other)\<close>\<close>
| "compare_frequency (PFrequency t c) (PFrequency t' c') =
     (if c > c' then Inr (- 1)
      else if c = c' then
        (case py_eq t t' of
           Inl e \<Rightarrow> Inl e
         | Inr True \<Rightarrow> Inr 0
         | Inr False \<Rightarrow>
             (case py_lt t t' of
                Inl e \<Rightarrow> Inl e
              | Inr l \<Rightarrow> Inr (if l then - 1 else 1)))
      else Inr 1)"
| "compare_frequency self other = Inr 1"
  by pat_completeness auto
termination
  by (relation "measure (\<lambda>x. case x of
        Inl (Inl (a, b)) \<Rightarrow> 3 * (size a + size b) + 1
      | Inl (Inr (a, b)) \<Rightarrow> 3 * (size a + size b) + 1
      | Inr (Inl (a, b)) \<Rightarrow> 3 * (size a + size b) + 2
      | Inr (Inr (Inl (a, b))) \<Rightarrow> 3 * (size a + size b)
      | Inr (Inr (Inr (a, b))) \<Rightarrow> 3 * (size a + size b))") auto

text \<open>The six rich comparisons of \<^verbatim>\<open>Frequency\<close>, as methods.\<close>

definition Frequency_eq :: "pyobj \<Rightarrow> pyobj \<Rightarrow> error + bool" where
  "Frequency_eq self other =
     (case compare_frequency self other of Inl e \<Rightarrow> Inl e | Inr r \<Rightarrow> Inr (r = 0))"

definition Frequency_ne :: "pyobj \<Rightarrow> pyobj \<Rightarrow> error + bool" where
  "Frequency_ne self other =
     (case compare_frequency self other of Inl e \<Rightarrow> Inl e | Inr r \<Rightarrow> Inr (r \<noteq> 0))"

definition Frequency_lt :: "pyobj \<Rightarrow> pyobj \<Rightarrow> error + bool" where
  "Frequency_lt self other =
     (case compare_frequency self other of Inl e \<Rightarrow> Inl e | Inr r \<Rightarrow> Inr (r = - 1))"

definition Frequency_le :: "pyobj \<Rightarrow> pyobj \<Rightarrow> error + bool" where
  "Frequency_le self other =
     (case compare_frequency self other of Inl e \<Rightarrow> Inl e | Inr r \<Rightarrow> Inr (r \<le> 0))"

definition Frequency_gt :: "pyobj \<Rightarrow> pyobj \<Rightarrow> error + bool" where
  "Frequency_gt self other =
     (case compare_frequency self other of Inl e \<Rightarrow> Inl e | Inr r \<Rightarrow> Inr (r = 1))"

definition Frequency_ge :: "pyobj \<Rightarrow> pyobj \<Rightarrow> error + bool" where
  "Frequency_ge self other =
     (case compare_frequency self other of Inl e \<Rightarrow> Inl e | Inr r \<Rightarrow> Inr (r \<ge> 0))"

text \<open>
  \<^verbatim>\<open>Pair.__eq__\<close> and \<^verbatim>\<open>TwoGram.__eq__\<close> called as methods, without the operator's
  dispatch.
\<close>

fun Pair_eq :: "pyobj \<Rightarrow> pyobj \<Rightarrow> error + bool" where
  "Pair_eq (PPair a b) other =
     (if \<not> isinstance other class_Pair then Inr False
      else (case other of
              PPair c d \<Rightarrow>
                (case py_eq a c of
                   Inl e \<Rightarrow> Inl e | Inr False \<Rightarrow> Inr False | Inr True \<Rightarrow> py_eq b d)
            | PTwoGram c d \<Rightarrow>
                (case py_eq a c of
                   Inl e \<Rightarrow> Inl e | Inr False \<Rightarrow> Inr False | Inr True \<Rightarrow> py_eq b d)
            | _ \<Rightarrow> Inr False))"

fun TwoGram_eq :: "pyobj \<Rightarrow> pyobj \<Rightarrow> error + bool" where
  "TwoGram_eq (PTwoGram a b) other =
     (if other \<noteq> PNone \<and> isinstance other class_TwoGram then
        (case other of
           PTwoGram c d \<Rightarrow>
             (case py_eq a c of
                Inl e \<Rightarrow> Inl e | Inr False \<Rightarrow> Inr False | Inr True \<Rightarrow> py_eq b d)
         | _ \<Rightarrow> Inr False)
      else Inr False)"

section \<open>Constructors and setters\<close>

text \<open>\<^verbatim>\<open>TwoGram.__init__\<close>: the slots have the same type unless one of them is \<^verbatim>\<open>None\<close>.\<close>

definition TwoGram_init :: "pyobj \<Rightarrow> pyobj \<Rightarrow> error + pyobj" where
  "TwoGram_init token1 token2 =
     (if token1 = PNone \<or> token2 = PNone \<or> py_type token1 = py_type token2
      then Inr (PTwoGram token1 token2)
      else Inl (ValueError ''Two tokens must be of the same type.''))"

text \<open>
  The overriding setters of \<^verbatim>\<open>TwoGram\<close>. The object is updated in place; the model
  returns the updated object, or the error with the object untouched.
\<close>

fun TwoGram_set_object1 :: "pyobj \<Rightarrow> pyobj \<Rightarrow> error + pyobj" where
  "TwoGram_set_object1 (PTwoGram object1 object2) o1 =
     (if o1 = PNone \<or> py_type object2 = py_type o1
      then Inr (PTwoGram o1 object2)
      else Inl (ValueError ''Two tokens must be of the same type.''))"

fun TwoGram_set_object2 :: "pyobj \<Rightarrow> pyobj \<Rightarrow> error + pyobj" where
  "TwoGram_set_object2 (PTwoGram object1 object2) o2 =
     (if o2 = PNone \<or> py_type object1 = py_type o2
      then Inr (PTwoGram object1 o2)
      else Inl (ValueError ''Two tokens must be of the same type.''))"

text \<open>\<^verbatim>\<open>Frequency.__init__\<close>: the two checks, in the order of the source.\<close>

definition Frequency_init :: "pyobj \<Rightarrow> pyobj \<Rightarrow> error + pyobj" where
  "Frequency_init token freq =
     (if \<not> (isinstance token class_str \<or> isinstance token class_TwoGram)
      then Inl (ValueError ''A token must either be of type str or TwoGram.'')
      else (case int_val freq of
              None \<Rightarrow> Inl (ValueError ''Frequency must be an integer > 0'')
            | Some n \<Rightarrow>
                if n < 0 then Inl (ValueError ''Frequency must be an integer > 0'')
                else Inr (PFrequency token n)))"

section \<open>String forms\<close>

text \<open>\<^verbatim>\<open>str(n)\<close> for an integer: its decimal digits, with a sign when negative.\<close>

definition digit_char :: "nat \<Rightarrow> char" where
  "digit_char d = ''0123456789'' ! d"

function str_nat :: "nat \<Rightarrow> string" where
  "str_nat n = (if n < 10 then [digit_char n] else str_nat (n div 10) @ [digit_char (n mod 10)])"
  by pat_completeness auto
termination
  by (relation "measure id") auto

declare str_nat.simps [simp del]

definition str_int :: "int \<Rightarrow> string" where
  "str_int i = (if i < 0 then CHR ''-'' # str_nat (nat (- i)) else str_nat (nat i))"

text \<open>
  \<^verbatim>\<open>str(x)\<close>. For a \<^verbatim>\<open>Pair\<close> (and a \<^verbatim>\<open>TwoGram\<close>, which inherits the method) this
  is \<^verbatim>\<open>Pair.__str__\<close>, which assigns to \<^verbatim>\<open>self._object1\<close> and \<^verbatim>\<open>self._object2\<close>
  before it builds the string; so the model returns the string together with the object as
  the call leaves it. \<^verbatim>\<open>Frequency.__str__\<close> formats the token with \<^verbatim>\<open>str\<close>.
\<close>

function py_str :: "pyobj \<Rightarrow> error + string \<times> pyobj"
     and Pair_str :: "pyobj \<Rightarrow> pyobj \<Rightarrow> error + string \<times> pyobj \<times> pyobj"
where
  "py_str PNone = Inr (''None'', PNone)"
| "py_str (PBool b) = Inr (if b then ''True'' else ''False'', PBool b)"
| "py_str (PInt i) = Inr (str_int i, PInt i)"
| "py_str (PStr s) = Inr (s, PStr s)"
| "py_str (PPair a b) =
     (case Pair_str a b of
        Inl e \<Rightarrow> Inl e | Inr (s, a', b') \<Rightarrow> Inr (s, PPair a' b'))"
| "py_str (PTwoGram a b) =
     (case Pair_str a b of
        Inl e \<Rightarrow> Inl e | Inr (s, a', b') \<Rightarrow> Inr (s, PTwoGram a' b'))"
| "py_str (PFrequency t c) =
     (case py_str t of
        Inl e \<Rightarrow> Inl e | Inr (s, t') \<Rightarrow> Inr (s @ '':'' @ str_int c, PFrequency t' c))"
  \<comment> \<open>\<^verbatim>\<open>Pair.__str__(self)\<close>, \<open>self\<close> given by its two slots\<close>
| "Pair_str object1 object2 =
     (case py_eq object1 PNone of
        Inl e \<Rightarrow> Inl e
      | Inr none1 \<Rightarrow>
          (case py_eq object2 PNone of
             Inl e \<Rightarrow> Inl e
           | Inr none2 \<Rightarrow>
               (case py_str (if none1 then PStr ''None'' else object1) of
                  Inl e \<Rightarrow> Inl e
                | Inr (s1, object1') \<Rightarrow>
                    (case py_str (if none2 then PStr ''None'' else object2) of
                       Inl e \<Rightarrow> Inl e
                     | Inr (s2, object2') \<Rightarrow>
                         Inr (''<'' @ s1 @ '':'' @ s2 @ ''>'', object1', object2')))))"
  by pat_completeness auto
termination
  by (relation "measure (\<lambda>x. case x of
        Inl a \<Rightarrow> 2 * size a
      | Inr (a, b) \<Rightarrow> 2 * (size a + size b) + 1)") auto

section \<open>Dictionaries and \<^verbatim>\<open>list.sort\<close>\<close>

text \<open>
  A \<^verbatim>\<open>dict\<close> keeps its keys in insertion order: an association list without repeated
  keys. \<open>dict_get\<close> is \<^verbatim>\<open>d.get(k)\<close>, \<open>dict_get_default\<close> is \<^verbatim>\<open>d.get(k, v)\<close> and
  \<open>dict_setitem\<close> is \<^verbatim>\<open>d[k] = v\<close>, which keeps the place of a key that is present
  and appends a new one. Keys are told apart by equality of values; for the keys the
  frequency engine uses (\<^verbatim>\<open>str\<close> tokens, and \<^verbatim>\<open>TwoGram\<close>s of two \<^verbatim>\<open>str\<close>) this is
  what \<^verbatim>\<open>==\<close> answers (lemmas \<open>py_eq_str\<close> and \<open>py_eq_TwoGram_str\<close> below).
\<close>

definition dict_get :: "('k \<times> 'v) list \<Rightarrow> 'k \<Rightarrow> 'v option" where
  "dict_get d k = map_of d k"

definition dict_get_default :: "('k \<times> 'v) list \<Rightarrow> 'k \<Rightarrow> 'v \<Rightarrow> 'v" where
  "dict_get_default d k v = (case map_of d k of None \<Rightarrow> v | Some x \<Rightarrow> x)"

fun dict_setitem :: "('k \<times> 'v) list \<Rightarrow> 'k \<Rightarrow> 'v \<Rightarrow> ('k \<times> 'v) list" where
  "dict_setitem [] k v = [(k, v)]"
| "dict_setitem ((k', v') # d) k v =
     (if k' = k then (k', v) # d else (k', v') # dict_setitem d k v)"

text \<open>
  \<^verbatim>\<open>list.sort()\<close> is a stable sort that asks only \<^verbatim>\<open><\<close> of its elements. It is
  modelled as the stable insertion sort: each element in turn is placed in the sorted
  prefix before the first element it is less than. An exception raised by a comparison
  ends the sort.
\<close>

fun insert_by_lt :: "pyobj \<Rightarrow> pyobj list \<Rightarrow> error + pyobj list" where
  "insert_by_lt x [] = Inr [x]"
| "insert_by_lt x (y # ys) =
     (case py_lt x y of
        Inl e \<Rightarrow> Inl e
      | Inr True \<Rightarrow> Inr (x # y # ys)
      | Inr False \<Rightarrow>
          (case insert_by_lt x ys of Inl e \<Rightarrow> Inl e | Inr zs \<Rightarrow> Inr (y # zs)))"

fun sort_from :: "pyobj list \<Rightarrow> pyobj list \<Rightarrow> error + pyobj list" where
  "sort_from sorted_prefix [] = Inr sorted_prefix"
| "sort_from sorted_prefix (x # xs) =
     (case insert_by_lt x sorted_prefix of
        Inl e \<Rightarrow> Inl e
      | Inr sorted_prefix' \<Rightarrow> sort_from sorted_prefix' xs)"

definition list_sort :: "pyobj list \<Rightarrow> error + pyobj list" where
  "list_sort xs = sort_from [] xs"

section \<open>The frequency engine (\<^verbatim>\<open>freq_counter.py\<close>)\<close>

text \<open>The read-only properties \<^verbatim>\<open>token\<close> and \<^verbatim>\<open>freq\<close> of a \<^verbatim>\<open>Frequency\<close>.\<close>

fun Frequency_token :: "pyobj \<Rightarrow> pyobj" where
  "Frequency_token (PFrequency t c) = t"

fun Frequency_freq :: "pyobj \<Rightarrow> int" where
  "Frequency_freq (PFrequency t c) = c"

text \<open>
  The first loop of \<^verbatim>\<open>compute_word_freq\<close>:
  \<^verbatim>\<open>freq_dict[token] = freq_dict.get(token, 0) + 1\<close> for every token.
\<close>

fun count_tokens :: "(pyobj \<times> int) list \<Rightarrow> pyobj list \<Rightarrow> (pyobj \<times> int) list" where
  "count_tokens freq_dict [] = freq_dict"
| "count_tokens freq_dict (token # tokens) =
     count_tokens (dict_setitem freq_dict token (dict_get_default freq_dict token 0 + 1)) tokens"

text \<open>
  The second loop, shared by both functions: for every key of the dictionary, in its
  order, \<^verbatim>\<open>freq_list.append(Frequency(token, freq_dict.get(token)))\<close>.
\<close>

fun frequencies_of ::
  "(pyobj \<times> int) list \<Rightarrow> pyobj list \<Rightarrow> pyobj list \<Rightarrow> error + pyobj list" where
  "frequencies_of d [] freq_list = Inr freq_list"
| "frequencies_of d (token # keys) freq_list =
     (case Frequency_init token (case dict_get d token of None \<Rightarrow> PNone | Some n \<Rightarrow> PInt n) of
        Inl e \<Rightarrow> Inl e
      | Inr f \<Rightarrow> frequencies_of d keys (freq_list @ [f]))"

text \<open>
  \<^verbatim>\<open>compute_word_freq(tokens: list[str])\<close>; the argument is \<^verbatim>\<open>None\<close> or a list of
  \<^verbatim>\<open>str\<close>.
\<close>

definition compute_word_freq :: "string list option \<Rightarrow> error + pyobj list" where
  "compute_word_freq tokens =
     (if tokens = None \<or> tokens = Some [] then Inr []
      else
        (let freq_dict = count_tokens [] (map PStr (the tokens)) in
         case frequencies_of freq_dict (map fst freq_dict) [] of
           Inl e \<Rightarrow> Inl e
         | Inr freq_list \<Rightarrow> list_sort freq_list))"

text \<open>
  The loop of \<^verbatim>\<open>compute_twogram_freq\<close> over \<^verbatim>\<open>range(len(tokens) - 1)\<close>; every index
  \<open>n\<close> of that range has \<open>n + 1\<close> inside the list.
\<close>

fun count_twograms ::
  "pyobj list \<Rightarrow> nat list \<Rightarrow> (pyobj \<times> int) list \<Rightarrow> error + (pyobj \<times> int) list" where
  "count_twograms tokens [] tgram_dict = Inr tgram_dict"
| "count_twograms tokens (n # ns) tgram_dict =
     (case TwoGram_init (tokens ! n) (tokens ! (n + 1)) of
        Inl e \<Rightarrow> Inl e
      | Inr tgram \<Rightarrow>
          count_twograms tokens ns
            (dict_setitem tgram_dict tgram (dict_get_default tgram_dict tgram 0 + 1)))"

definition compute_twogram_freq :: "string list option \<Rightarrow> error + pyobj list" where
  "compute_twogram_freq tokens =
     (if tokens = Some [] \<or> tokens = None then Inr []
      else
        (case count_twograms (map PStr (the tokens)) [0 ..< length (the tokens) - 1] [] of
           Inl e \<Rightarrow> Inl e
         | Inr tgram_dict \<Rightarrow>
             (case frequencies_of tgram_dict (map fst tgram_dict) [] of
                Inl e \<Rightarrow> Inl e
              | Inr tgram_list \<Rightarrow> list_sort tgram_list)))"

text \<open>
  Notions used to state the results: the key under which \<^verbatim>\<open>Frequency\<close> objects with
  \<^verbatim>\<open>str\<close> subjects (or with two-grams of \<^verbatim>\<open>str\<close>) are ordered, smaller key first:
  the negated count, then the subject's strings.
\<close>

fun subject_key :: "pyobj \<Rightarrow> string list" where
  "subject_key (PStr s) = [s]"
| "subject_key (PTwoGram a b) = subject_key a @ subject_key b"
| "subject_key _ = []"

definition frequency_key :: "pyobj \<Rightarrow> int \<times> string list" where
  "frequency_key f = (- Frequency_freq f, subject_key (Frequency_token f))"

definition str_subject :: "pyobj \<Rightarrow> bool" where
  "str_subject t \<longleftrightarrow> (\<exists>s. t = PStr s) \<or> (\<exists>a b. t = PTwoGram (PStr a) (PStr b))"

section \<open>The report formatter (\<^verbatim>\<open>freq_utils.py\<close>)\<close>





text \<open>
  \<^verbatim>\<open>hash(x)\<close>. The two methods of the source are
  \<^verbatim>\<open>Pair.__hash__\<close>, which is \<^verbatim>\<open>hash((self._object1, self._object2))\<close> (and
  \<^verbatim>\<open>TwoGram.__hash__\<close> calls it), and \<^verbatim>\<open>Frequency.__hash__\<close>, which is
  \<^verbatim>\<open>hash((self._token, self._freq))\<close>. The hashes of the built-in values belong to the
  interpreter, and the hash of a \<^verbatim>\<open>str\<close> changes from one process to the next; they
  are parameters. A \<^verbatim>\<open>bool\<close> is hashed as the integer it equals.
\<close>

record hash_functions =
  hash_None :: int
  hash_int :: "int \<Rightarrow> int"
  hash_str :: "string \<Rightarrow> int"
  hash_tuple :: "int list \<Rightarrow> int"

fun py_hash :: "hash_functions \<Rightarrow> pyobj \<Rightarrow> int" where
  "py_hash h PNone = hash_None h"
| "py_hash h (PBool b) = hash_int h (if b then 1 else 0)"
| "py_hash h (PInt i) = hash_int h i"
| "py_hash h (PStr s) = hash_str h s"
| "py_hash h (PPair a b) = hash_tuple h [py_hash h a, py_hash h b]"
| "py_hash h (PTwoGram a b) = hash_tuple h [py_hash h a, py_hash h b]"
| "py_hash h (PFrequency t c) = hash_tuple h [py_hash h t, hash_int h c]"





text \<open>The text of \<^verbatim>\<open>str(x)\<close> alone, and the object as \<^verbatim>\<open>str(x)\<close> leaves it.\<close>

definition str_text :: "pyobj \<Rightarrow> string" where
  "str_text x = (case py_str x of Inr (s, x') \<Rightarrow> s | Inl e \<Rightarrow> [])"

definition str_leaves :: "pyobj \<Rightarrow> pyobj" where
  "str_leaves x = (case py_str x of Inr (s, x') \<Rightarrow> x' | Inl e \<Rightarrow> x)"

text \<open>
  The object with \<^verbatim>\<open>True\<close> and \<^verbatim>\<open>False\<close> written as the integers 1 and 0 they are
  equal to. Two objects that \<^verbatim>\<open>==\<close> can compare are \<^verbatim>\<open>==\<close> exactly when they have
  the same such form (lemma \<open>py_eq_numeric_form\<close> below), so the records of a list that
  are distinct under \<^verbatim>\<open>==\<close> are counted by their forms.
\<close>

fun numeric_form :: "pyobj \<Rightarrow> pyobj" where
  "numeric_form (PBool b) = PInt (if b then 1 else 0)"
| "numeric_form (PPair a b) = PPair (numeric_form a) (numeric_form b)"
| "numeric_form (PTwoGram a b) = PTwoGram (numeric_form a) (numeric_form b)"
| "numeric_form (PFrequency t c) = PFrequency (numeric_form t) c"
| "numeric_form x = x"

section \<open>The retrieval engine (\<^verbatim>\<open>retrieval.py\<close>)\<close>

text \<open>
  \<^verbatim>\<open>LegoCorpus\<close> extends a class \<^verbatim>\<open>Corpus\<close> of a module that is not part of the
  sources at hand (\<^verbatim>\<open>src.vector_space.vector_space_models\<close>). What the two methods
  below read from it is passed as arguments: the table \<^verbatim>\<open>self._dfs\<close> of document
  frequencies, the index \<^verbatim>\<open>self._terms\<close>, the number of documents
  \<^verbatim>\<open>len(self.docs)\<close>, the raw count \<^verbatim>\<open>doc.tf(term)\<close> of the document at hand, and
  the list \<^verbatim>\<open>self.docs\<close> itself. Floats are idealised as real numbers; the result of
  \<^verbatim>\<open>_compute_tf_idf\<close> is a float or \<^verbatim>\<open>None\<close>.
\<close>

definition math_log10 :: "real \<Rightarrow> error + real" where
  "math_log10 x = (if x \<le> 0 then Inl (ValueError ''math domain error'') else Inr (log 10 x))"

definition compute_tf_idf ::
  "(string \<rightharpoonup> int) \<Rightarrow> (string \<rightharpoonup> nat) \<Rightarrow> nat \<Rightarrow> (string \<Rightarrow> int) \<Rightarrow> string
     \<Rightarrow> error + real option" where
  "compute_tf_idf dfs terms len_docs doc_tf term =
     (case dfs term of
        Some df \<Rightarrow>
          (case math_log10 (of_int (1 + doc_tf term)) of
             Inl e \<Rightarrow> Inl e
           | Inr tf \<Rightarrow>
               if 1 + df = 0 then Inl ZeroDivisionError
               else
                 (case math_log10 (real len_docs / of_int (1 + df)) of
                    Inl e \<Rightarrow> Inl e
                  | Inr idf \<Rightarrow>
                      (let tf_idf = tf * idf in
                       if term \<in> dom terms \<and> len_docs > 1 then Inr (Some tf_idf)
                       else Inr None)))
      | None \<Rightarrow> Inr (Some 0))"

record document =
  title :: string
  words :: "string list"

text \<open>
  \<^verbatim>\<open>sorted(items, key=lambda item: item[1], reverse=True)\<close>: a stable sort by
  descending score, so items of equal score keep their order. Modelled as the stable
  insertion sort that places each item before the first item of smaller score.
\<close>

fun insert_desc :: "string \<times> real \<Rightarrow> (string \<times> real) list \<Rightarrow> (string \<times> real) list" where
  "insert_desc x [] = [x]"
| "insert_desc x (y # ys) = (if snd y < snd x then x # y # ys else y # insert_desc x ys)"

fun sorted_desc_from ::
  "(string \<times> real) list \<Rightarrow> (string \<times> real) list \<Rightarrow> (string \<times> real) list" where
  "sorted_desc_from sorted_prefix [] = sorted_prefix"
| "sorted_desc_from sorted_prefix (x # xs) = sorted_desc_from (insert_desc x sorted_prefix) xs"

definition sorted_by_score_desc :: "(string \<times> real) list \<Rightarrow> (string \<times> real) list" where
  "sorted_by_score_desc items = sorted_desc_from [] items"

text \<open>The slice \<^verbatim>\<open>xs[:k]\<close>; a negative \<open>k\<close> counts from the end.\<close>

definition slice_to :: "'a list \<Rightarrow> int \<Rightarrow> 'a list" where
  "slice_to xs k = (if 0 \<le> k then take (nat k) xs else take (length xs - nat (- k)) xs)"

text \<open>
  \<^verbatim>\<open>get_top_k_sets(self, query_result, k)\<close>; \<open>query_result\<close> is the dictionary of
  scores by title, in its insertion order.
\<close>

definition get_top_k_sets :: "document list \<Rightarrow> (string \<times> real) list \<Rightarrow> int \<Rightarrow> document list" where
  "get_top_k_sets docs query_result k =
     (let sorted_result = slice_to (sorted_by_score_desc query_result) k
      in filter (\<lambda>doc. title doc \<in> fst ` set sorted_result) docs)"

text \<open>The score the dictionary holds for a document.\<close>

definition score_of :: "(string \<times> real) list \<Rightarrow> document \<Rightarrow> real" where
  "score_of query_result d = the (map_of query_result (title d))"

section \<open>Facts about the comparisons, the string forms and the setters\<close>

lemma py_eq_None_right: "py_eq a PNone = Inr (a = PNone)"
  by (cases a) simp_all

lemma py_eq_None_left: "py_eq PNone a = Inr (a = PNone)"
  by (cases a) auto

lemma py_eq_refl: "py_eq a a = Inr True"
  by (induction a) (simp_all split: option.splits)

text \<open>
  Between two objects that \<^verbatim>\<open>Frequency.__init__\<close> accepts as a token, the test
  \<^verbatim>\<open>==\<close> followed by \<^verbatim>\<open><\<close> of \<^verbatim>\<open>_compare_frequency\<close> answers what \<^verbatim>\<open><\<close>
  alone answers (and raises when it raises).
\<close>

lemma subject_eq_then_lt:
  assumes "isinstance t class_str \<or> isinstance t class_TwoGram"
      and "isinstance t' class_str \<or> isinstance t' class_TwoGram"
  shows "(case py_eq t t' of
            Inl e \<Rightarrow> Inl e | Inr True \<Rightarrow> Inr False | Inr False \<Rightarrow> py_lt t t') = py_lt t t'"
  using assms
  by (cases t; cases t')
     (auto simp: isinstance_def issubclass_def py_eq_None_right py_eq_None_left
           split: sum.splits bool.splits if_splits)

lemma compare_frequency_other:
  "\<not> isinstance other class_Frequency \<Longrightarrow> compare_frequency (PFrequency t c) other = Inr 1"
  by (cases other) (simp_all add: isinstance_def issubclass_def)

text \<open>\<^verbatim>\<open>str\<close> never raises, and a pair prints as its two slots between brackets.\<close>

lemma py_str_total: "\<exists>s x'. py_str x = Inr (s, x')"
proof (induction x)
  case (PPair a b)
  then show ?case
    by (cases "a = PNone"; cases "b = PNone") (auto simp: py_eq_None_right)
next
  case (PTwoGram a b)
  then show ?case
    by (cases "a = PNone"; cases "b = PNone") (auto simp: py_eq_None_right)
next
  case (PFrequency t c)
  then show ?case by auto
qed simp_all

lemma py_str_text_leaves: "py_str x = Inr (str_text x, str_leaves x)"
  using py_str_total [of x] by (auto simp: str_text_def str_leaves_def)

lemma Pair_str_slot:
  "py_str (if a = PNone then PStr ''None'' else a) =
     Inr (str_text a, if a = PNone then PStr ''None'' else str_leaves a)"
  by (cases "a = PNone") (simp add: str_text_def, simp add: py_str_text_leaves)

lemma Pair_str_form:
  "py_str (PPair a b) =
     Inr (''<'' @ str_text a @ '':'' @ str_text b @ ''>'',
          PPair (if a = PNone then PStr ''None'' else str_leaves a)
                (if b = PNone then PStr ''None'' else str_leaves b))"
  by (simp add: py_eq_None_right Pair_str_slot)

text \<open>
  What the two setters of \<^verbatim>\<open>TwoGram\<close> do; in particular they refuse a token beside a
  \<^verbatim>\<open>None\<close> slot, which the constructor accepts.
\<close>

lemma TwoGram_setter_cases:
  "TwoGram_set_object1 (PTwoGram a b) o1 =
     (if o1 = PNone \<or> py_type b = py_type o1 then Inr (PTwoGram o1 b)
      else Inl (ValueError ''Two tokens must be of the same type.''))"
  "TwoGram_set_object2 (PTwoGram a b) o2 =
     (if o2 = PNone \<or> py_type a = py_type o2 then Inr (PTwoGram a o2)
      else Inl (ValueError ''Two tokens must be of the same type.''))"
  "b = PNone \<Longrightarrow> o1 \<noteq> PNone \<Longrightarrow>
     TwoGram_set_object1 (PTwoGram a b) o1 = Inl (ValueError ''Two tokens must be of the same type.'') \<and>
     TwoGram_init o1 b = Inr (PTwoGram o1 b)"
  by (cases o1; simp add: TwoGram_init_def)+

section \<open>The claims about the data model\<close>

text \<open>
  C5. For two \<^verbatim>\<open>Frequency\<close> values (each with a subject that the constructor accepts,
  a \<^verbatim>\<open>str\<close> or a \<^verbatim>\<open>TwoGram\<close>), \<^verbatim>\<open>f1 < f2\<close> holds exactly when \<open>f1\<close> has the
  higher count, or the counts are equal and the subject of \<open>f1\<close> is below the subject of
  \<open>f2\<close> under \<^verbatim>\<open><\<close>. Compared with \<^verbatim>\<open>None\<close> or any object that is no
  \<^verbatim>\<open>Frequency\<close>, the comparator answers 1 (\<open>self\<close> is greater): \<^verbatim>\<open><\<close>, \<^verbatim>\<open><=\<close>
  and \<^verbatim>\<open>==\<close> are false, \<^verbatim>\<open>>\<close>, \<^verbatim>\<open>>=\<close> and \<^verbatim>\<open>!=\<close> are true.
\<close>

theorem Frequency_total_order:
  "((isinstance t1 class_str \<or> isinstance t1 class_TwoGram) \<and>
    (isinstance t2 class_str \<or> isinstance t2 class_TwoGram) \<longrightarrow>
      Frequency_lt (PFrequency t1 c1) (PFrequency t2 c2) =
        (if c2 < c1 then Inr True else if c1 = c2 then py_lt t1 t2 else Inr False) \<and>
      py_lt (PFrequency t1 c1) (PFrequency t2 c2) =
        Frequency_lt (PFrequency t1 c1) (PFrequency t2 c2)) \<and>
   (\<not> isinstance other class_Frequency \<longrightarrow>
      compare_frequency (PFrequency t c) other = Inr 1 \<and>
      Frequency_lt (PFrequency t c) other = Inr False \<and>
      Frequency_le (PFrequency t c) other = Inr False \<and>
      Frequency_eq (PFrequency t c) other = Inr False \<and>
      Frequency_gt (PFrequency t c) other = Inr True \<and>
      Frequency_ge (PFrequency t c) other = Inr True \<and>
      Frequency_ne (PFrequency t c) other = Inr True \<and>
      py_lt (PFrequency t c) other = Inr False \<and>
      py_eq (PFrequency t c) other = Inr False)"
proof -
  have ord: "Frequency_lt (PFrequency t1 c1) (PFrequency t2 c2) =
        (if c2 < c1 then Inr True else if c1 = c2 then py_lt t1 t2 else Inr False)"
    if "isinstance t1 class_str \<or> isinstance t1 class_TwoGram"
       "isinstance t2 class_str \<or> isinstance t2 class_TwoGram"
  proof -
    have "Frequency_lt (PFrequency t1 c1) (PFrequency t2 c2) =
        (if c2 < c1 then Inr True
         else if c1 = c2 then
           (case py_eq t1 t2 of
              Inl e \<Rightarrow> Inl e | Inr True \<Rightarrow> Inr False | Inr False \<Rightarrow> py_lt t1 t2)
         else Inr False)"
      by (simp add: Frequency_lt_def split: sum.splits bool.splits)
    then show ?thesis
      using subject_eq_then_lt [OF that] by simp
  qed
  have op: "py_lt (PFrequency t1 c1) (PFrequency t2 c2) =
        Frequency_lt (PFrequency t1 c1) (PFrequency t2 c2)"
    by (simp add: Frequency_lt_def)
  have other: "compare_frequency (PFrequency t c) other = Inr 1"
    if "\<not> isinstance other class_Frequency"
    using that by (rule compare_frequency_other)
  show ?thesis
    using ord op other
    by (simp add: Frequency_lt_def Frequency_le_def Frequency_eq_def Frequency_gt_def
        Frequency_ge_def Frequency_ne_def)
qed

theorem Frequency_total_order_witness:
  "Frequency_lt (PFrequency (PStr ''a'') 1) (PFrequency (PStr ''b'') 1) = Inr True \<and>
   Frequency_gt (PFrequency (PStr ''a'') 1) PNone = Inr True"
proof -
  have inst: "isinstance (PStr ''a'') class_str" "isinstance (PStr ''b'') class_str"
    "\<not> isinstance PNone class_Frequency"
    by (simp_all add: isinstance_def issubclass_def)
  have subj: "py_lt (PStr ''a'') (PStr ''b'') = Inr True"
    by simp
  note T = Frequency_total_order [of "PStr ''a''" "PStr ''b''" 1 1 PNone "PStr ''a''" 1]
  have "Frequency_lt (PFrequency (PStr ''a'') 1) (PFrequency (PStr ''b'') 1) =
         (if (1::int) < 1 then Inr True
          else if (1::int) = 1 then py_lt (PStr ''a'') (PStr ''b'') else Inr False)"
    using T inst by blast
  moreover have "Frequency_gt (PFrequency (PStr ''a'') 1) PNone = Inr True"
    using T inst by blast
  ultimately show ?thesis
    using subj by simp
qed

text \<open>
  C6, at the input where the code departs from it. The constructor accepts a \<^verbatim>\<open>None\<close>
  in either position, but a setter compares the type of the new value with the type of
  the other slot without asking whether the other slot is \<^verbatim>\<open>None\<close>: on
  \<^verbatim>\<open>TwoGram("a", None)\<close>, the assignment \<^verbatim>\<open>object1 = "x"\<close> raises \<^verbatim>\<open>ValueError\<close>,
  and so does \<^verbatim>\<open>object2 = "y"\<close> on \<^verbatim>\<open>TwoGram(None, "b")\<close>, although the constructor
  builds both one-sided pairs and would build \<^verbatim>\<open>TwoGram("x", None)\<close> and
  \<^verbatim>\<open>TwoGram(None, "y")\<close> as well.
\<close>

theorem TwoGram_setter_rejects_token_beside_None:
  "TwoGram_init (PStr ''a'') PNone = Inr (PTwoGram (PStr ''a'') PNone) \<and>
   TwoGram_set_object1 (PTwoGram (PStr ''a'') PNone) (PStr ''x'') =
     Inl (ValueError ''Two tokens must be of the same type.'') \<and>
   TwoGram_init (PStr ''x'') PNone = Inr (PTwoGram (PStr ''x'') PNone) \<and>
   TwoGram_init PNone (PStr ''b'') = Inr (PTwoGram PNone (PStr ''b'')) \<and>
   TwoGram_set_object2 (PTwoGram PNone (PStr ''b'')) (PStr ''y'') =
     Inl (ValueError ''Two tokens must be of the same type.'') \<and>
   TwoGram_init PNone (PStr ''y'') = Inr (PTwoGram PNone (PStr ''y''))"
  by (simp add: TwoGram_init_def)

text \<open>
  C7, at the input where the code departs from it. The string form of
  \<^verbatim>\<open>Pair(None, "a")\<close> is \<^verbatim>\<open><None:a>\<close>, but producing it stores the string
  \<^verbatim>\<open>"None"\<close> in the first slot: afterwards the pair is \<^verbatim>\<open>Pair("None", "a")\<close>, which
  is not equal to the pair before the call. On \<^verbatim>\<open>TwoGram(None, 5)\<close> the call leaves
  \<^verbatim>\<open>TwoGram("None", 5)\<close>, a pairing of a \<^verbatim>\<open>str\<close> with an \<^verbatim>\<open>int\<close> that the
  constructor itself refuses to build.
\<close>

theorem Pair_str_overwrites_None_slot:
  "py_str (PPair PNone (PStr ''a'')) = Inr (''<None:a>'', PPair (PStr ''None'') (PStr ''a'')) \<and>
   py_eq (PPair (PStr ''None'') (PStr ''a'')) (PPair PNone (PStr ''a'')) = Inr False \<and>
   TwoGram_init PNone (PInt 5) = Inr (PTwoGram PNone (PInt 5)) \<and>
   py_str (PTwoGram PNone (PInt 5)) = Inr (''<None:5>'', PTwoGram (PStr ''None'') (PInt 5)) \<and>
   TwoGram_init (PStr ''None'') (PInt 5) = Inl (ValueError ''Two tokens must be of the same type.'')"
  by (simp add: TwoGram_init_def str_int_def str_nat.simps digit_char_def)

text \<open>
  C8. \<^verbatim>\<open>Frequency(token, freq)\<close> returns a \<^verbatim>\<open>Frequency\<close> exactly when \<open>token\<close> is a
  \<^verbatim>\<open>str\<close> or a \<^verbatim>\<open>TwoGram\<close> and \<open>freq\<close> is an \<^verbatim>\<open>int\<close> instance (which in Python
  includes \<^verbatim>\<open>True\<close> and \<^verbatim>\<open>False\<close>, the integers 1 and 0) that is not negative; then
  the value holds that token and that count. In every other case the call raises one of
  the two \<^verbatim>\<open>ValueError\<close>s, the one about the token when the token is at fault, and no
  value is returned.
\<close>

theorem Frequency_init_validation:
  "((\<exists>f. Frequency_init token freq = Inr f) \<longleftrightarrow>
      (py_type token = class_str \<or> py_type token = class_TwoGram) \<and>
      (\<exists>n. int_val freq = Some n \<and> 0 \<le> n)) \<and>
   (if py_type token = class_str \<or> py_type token = class_TwoGram then
      (case int_val freq of
         Some n \<Rightarrow>
           if 0 \<le> n then Frequency_init token freq = Inr (PFrequency token n)
           else Frequency_init token freq = Inl (ValueError ''Frequency must be an integer > 0'')
       | None \<Rightarrow> Frequency_init token freq = Inl (ValueError ''Frequency must be an integer > 0''))
    else Frequency_init token freq =
           Inl (ValueError ''A token must either be of type str or TwoGram.''))"
  by (cases token)
     (auto simp: Frequency_init_def isinstance_def issubclass_def split: option.splits)

theorem Frequency_init_validation_witness:
  "Frequency_init (PStr ''word'') (PInt 3) = Inr (PFrequency (PStr ''word'') 3) \<and>
   Frequency_init (PStr ''word'') (PInt (- 1)) = Inl (ValueError ''Frequency must be an integer > 0'') \<and>
   Frequency_init (PStr ''word'') (PStr ''3'') = Inl (ValueError ''Frequency must be an integer > 0'') \<and>
   Frequency_init (PInt 5) (PInt 3) = Inl (ValueError ''A token must either be of type str or TwoGram.'')"
  using Frequency_init_validation [of "PStr ''word''" "PInt 3"]
        Frequency_init_validation [of "PStr ''word''" "PInt (- 1)"]
        Frequency_init_validation [of "PStr ''word''" "PStr ''3''"]
        Frequency_init_validation [of "PInt 5" "PInt 3"]
  by simp

text \<open>
  C10, as the claim states it, at a concrete pair: \<^verbatim>\<open>Pair("a", "b") == TwoGram("a", "b")\<close>
  is \<^verbatim>\<open>False\<close>, not \<^verbatim>\<open>True\<close>. \<^verbatim>\<open>TwoGram\<close> is a subclass of \<^verbatim>\<open>Pair\<close>, so the
  operator asks \<^verbatim>\<open>TwoGram.__eq__\<close> of the right operand first, and that method answers
  \<^verbatim>\<open>False\<close> for a left operand that is no \<^verbatim>\<open>TwoGram\<close>.
\<close>

theorem Pair_equals_TwoGram_counterexample:
  "py_eq (PPair (PStr ''a'') (PStr ''b'')) (PTwoGram (PStr ''a'') (PStr ''b'')) \<noteq> Inr True"
  by simp

text \<open>
  C10, amended. For all values \<open>a\<close> and \<open>b\<close>, the operator \<^verbatim>\<open>==\<close> answers
  \<^verbatim>\<open>False\<close> in both directions between \<^verbatim>\<open>Pair(a, b)\<close> and \<^verbatim>\<open>TwoGram(a, b)\<close>. The
  asymmetry is in the methods only: \<^verbatim>\<open>Pair.__eq__\<close> called directly on the pair with the
  two-gram as argument answers \<^verbatim>\<open>True\<close>, and \<^verbatim>\<open>TwoGram.__eq__\<close> called on the two-gram
  with the pair as argument answers \<^verbatim>\<open>False\<close>.
\<close>

theorem Pair_TwoGram_equality:
  "py_eq (PPair a b) (PTwoGram a b) = Inr False \<and>
   py_eq (PTwoGram a b) (PPair a b) = Inr False \<and>
   Pair_eq (PPair a b) (PTwoGram a b) = Inr True \<and>
   TwoGram_eq (PTwoGram a b) (PPair a b) = Inr False"
  by (simp add: py_eq_refl isinstance_def issubclass_def)

section \<open>Facts about dictionaries, the counting loop and the sort\<close>

lemma map_of_dict_setitem: "map_of (dict_setitem d k v) = (map_of d)(k \<mapsto> v)"
  by (induction d) (auto simp: fun_eq_iff)

lemma map_fst_dict_setitem:
  "map fst (dict_setitem d k v) = (if k \<in> fst ` set d then map fst d else map fst d @ [k])"
  by (induction d) force+

lemma keys_dict_setitem: "fst ` set (dict_setitem d k v) = insert k (fst ` set d)"
proof -
  have "set (map fst (dict_setitem d k v)) = insert k (set (map fst d))"
    unfolding map_fst_dict_setitem by auto
  then show ?thesis by simp
qed

lemma distinct_dict_setitem: "distinct (map fst d) \<Longrightarrow> distinct (map fst (dict_setitem d k v))"
  by (simp add: map_fst_dict_setitem)

lemma sum_dict_setitem:
  "sum_list (map snd (dict_setitem d k (dict_get_default d k 0 + 1))) = sum_list (map snd d) + (1::int)"
  by (induction d) (auto simp: dict_get_default_def)

lemma count_tokens_sum:
  "sum_list (map snd (count_tokens d ks)) = sum_list (map snd d) + int (length ks)"
  by (induction ks arbitrary: d) (simp_all add: sum_dict_setitem)

lemma count_tokens_distinct:
  "distinct (map fst d) \<Longrightarrow> distinct (map fst (count_tokens d ks))"
  by (induction ks arbitrary: d) (simp_all add: distinct_dict_setitem)

lemma count_tokens_keys:
  "fst ` set (count_tokens d ks) = fst ` set d \<union> set ks"
  by (induction ks arbitrary: d) (simp_all add: keys_dict_setitem)

lemma count_tokens_value:
  "dict_get_default (count_tokens d ks) k 0 = dict_get_default d k 0 + int (count_list ks k)"
  by (induction ks arbitrary: d) (simp_all add: dict_get_default_def map_of_dict_setitem)

lemma count_tokens_lookup:
  assumes "k \<in> set ks"
  shows "map_of (count_tokens [] ks) k = Some (int (count_list ks k))"
proof -
  have "k \<in> fst ` set (count_tokens [] ks)"
    using assms by (simp add: count_tokens_keys)
  then obtain v where v: "map_of (count_tokens [] ks) k = Some v"
    by (metis domD dom_map_of_conv_image_fst)
  moreover have "dict_get_default [] k (0::int) = 0"
    by (simp add: dict_get_default_def)
  then have "dict_get_default (count_tokens [] ks) k 0 = int (count_list ks k)"
    by (simp add: count_tokens_value)
  ultimately show ?thesis
    by (simp add: dict_get_default_def)
qed

lemma sum_values_by_key:
  "distinct (map fst d) \<Longrightarrow> sum_list (map (\<lambda>k. the (map_of d k)) (map fst d)) = sum_list (map snd d)"
proof -
  assume "distinct (map fst d)"
  then have "\<forall>p\<in>set d. the (map_of d (fst p)) = snd p"
    by auto
  then have "map (\<lambda>p. the (map_of d (fst p))) d = map snd d"
    by simp
  moreover have "map (\<lambda>k. the (map_of d k)) (map fst d) = map (\<lambda>p. the (map_of d (fst p))) d"
    by (simp add: comp_def)
  ultimately have "map (\<lambda>k. the (map_of d k)) (map fst d) = map snd d"
    by (rule trans [rotated])
  then show ?thesis
    by (rule arg_cong)
qed

lemma frequencies_of_ok:
  assumes "\<forall>k\<in>set keys. (isinstance k class_str \<or> isinstance k class_TwoGram) \<and>
             (\<exists>n. map_of d k = Some n \<and> 0 \<le> n)"
  shows "frequencies_of d keys acc = Inr (acc @ map (\<lambda>k. PFrequency k (the (map_of d k))) keys)"
  using assms
  by (induction keys arbitrary: acc) (auto simp: Frequency_init_def dict_get_def)

lemma insert_by_lt_sorted:
  fixes key :: "pyobj \<Rightarrow> 'k::linorder"
  assumes "\<forall>y\<in>set ys. py_lt x y = Inr (key x < key y)" "sorted (map key ys)"
  shows "\<exists>zs. insert_by_lt x ys = Inr zs \<and> mset zs = add_mset x (mset ys) \<and> sorted (map key zs)"
  using assms
proof (induction ys)
  case Nil
  then show ?case by simp
next
  case (Cons y ys)
  show ?case
  proof (cases "key x < key y")
    case True
    then show ?thesis using Cons.prems by (auto simp: less_imp_le intro: order_trans less_imp_le)
  next
    case False
    from Cons obtain zs where zs: "insert_by_lt x ys = Inr zs" "mset zs = add_mset x (mset ys)" "sorted (map key zs)"
      by auto
    have "set zs = insert x (set ys)"
      using zs(2) by (metis set_mset_add_mset_insert set_mset_mset)
    moreover have "key y \<le> key x"
      using False by simp
    moreover have "py_lt x y = Inr False"
      using False Cons.prems by simp
    ultimately show ?thesis using Cons.prems(2) zs by auto
  qed
qed

lemma sort_from_sorted:
  fixes key :: "pyobj \<Rightarrow> 'k::linorder"
  assumes "\<forall>x\<in>set acc \<union> set xs. \<forall>y\<in>set acc \<union> set xs. py_lt x y = Inr (key x < key y)"
    and "sorted (map key acc)"
  shows "\<exists>zs. sort_from acc xs = Inr zs \<and> mset zs = mset acc + mset xs \<and> sorted (map key zs)"
  using assms
proof (induction xs arbitrary: acc)
  case Nil
  then show ?case by simp
next
  case (Cons x xs)
  have "\<forall>y\<in>set acc. py_lt x y = Inr (key x < key y)"
    using Cons.prems(1) by simp
  from insert_by_lt_sorted [OF this Cons.prems(2)]
  obtain acc' where a: "insert_by_lt x acc = Inr acc'" "mset acc' = add_mset x (mset acc)" "sorted (map key acc')"
    by blast
  have s: "set acc' = insert x (set acc)"
    using a(2) by (metis set_mset_add_mset_insert set_mset_mset)
  have "\<forall>x\<in>set acc' \<union> set xs. \<forall>y\<in>set acc' \<union> set xs. py_lt x y = Inr (key x < key y)"
    using Cons.prems(1) unfolding s by simp
  from Cons.IH [OF this a(3)] a show ?case
    by auto
qed

lemma list_sort_sorted:
  fixes key :: "pyobj \<Rightarrow> 'k::linorder"
  assumes "\<forall>x\<in>set xs. \<forall>y\<in>set xs. py_lt x y = Inr (key x < key y)"
  shows "\<exists>zs. list_sort xs = Inr zs \<and> mset zs = mset xs \<and> sorted (map key zs)"
  using sort_from_sorted [of "[]" xs key] assms by (simp add: list_sort_def)

lemma py_eq_str: "py_eq (PStr a) (PStr b) = Inr (a = b)"
  by simp

lemma py_eq_TwoGram_str:
  "py_eq (PTwoGram (PStr a) (PStr b)) (PTwoGram (PStr a') (PStr b')) =
     Inr (PTwoGram (PStr a) (PStr b) = PTwoGram (PStr a') (PStr b'))"
  by (cases "a = a'") simp_all

lemma py_lt_frequency_key:
  assumes "str_subject t" "str_subject t'" "(\<exists>s. t = PStr s) \<longleftrightarrow> (\<exists>s. t' = PStr s)"
  shows "py_lt (PFrequency t c) (PFrequency t' c') =
           Inr (frequency_key (PFrequency t c) < frequency_key (PFrequency t' c'))"
  using assms by (auto simp: str_subject_def frequency_key_def split: bool.splits)

lemma mset_map_token:
  "mset fs = mset (map (\<lambda>k. PFrequency k (c k)) keys) \<Longrightarrow> mset (map Frequency_token fs) = mset keys"
proof -
  assume "mset fs = mset (map (\<lambda>k. PFrequency k (c k)) keys)"
  then have "image_mset Frequency_token (mset fs) =
             image_mset Frequency_token (mset (map (\<lambda>k. PFrequency k (c k)) keys))"
    by simp
  then show ?thesis
    by (simp add: multiset.map_comp comp_def)
qed

lemma mset_map_freq:
  "mset fs = mset (map (\<lambda>k. PFrequency k (c k)) keys) \<Longrightarrow>
   sum_list (map Frequency_freq fs) = sum_list (map c keys)"
proof -
  assume "mset fs = mset (map (\<lambda>k. PFrequency k (c k)) keys)"
  then have "image_mset Frequency_freq (mset fs) =
             image_mset Frequency_freq (mset (map (\<lambda>k. PFrequency k (c k)) keys))"
    by simp
  then have "mset (map Frequency_freq fs) = mset (map c keys)"
    by (simp add: multiset.map_comp comp_def)
  then show ?thesis
    by (metis sum_mset_sum_list)
qed

text \<open>Everything the two functions do after the dictionary is built.\<close>

lemma frequencies_sorted:
  assumes keys: "distinct (map fst d)"
      and subj: "(\<forall>k\<in>fst ` set d. \<exists>s. k = PStr s) \<or> (\<forall>k\<in>fst ` set d. \<exists>a b. k = PTwoGram (PStr a) (PStr b))"
      and nonneg: "\<forall>p\<in>set d. 0 \<le> snd p"
  shows "\<exists>fs. (case frequencies_of d (map fst d) [] of Inl e \<Rightarrow> Inl e | Inr l \<Rightarrow> list_sort l) = Inr fs \<and>
           mset fs = mset (map (\<lambda>k. PFrequency k (the (map_of d k))) (map fst d)) \<and>
           sorted (map frequency_key fs)"
proof -
  let ?L = "map (\<lambda>k. PFrequency k (the (map_of d k))) (map fst d)"
  have look: "\<forall>p\<in>set d. map_of d (fst p) = Some (snd p)"
    using keys by auto
  have "\<forall>k\<in>set (map fst d). (isinstance k class_str \<or> isinstance k class_TwoGram) \<and>
             (\<exists>n. map_of d k = Some n \<and> 0 \<le> n)"
    using subj look nonneg by (auto simp: isinstance_def issubclass_def)
  then have L: "frequencies_of d (map fst d) [] = Inr ?L"
    using frequencies_of_ok [of "map fst d" d "[]"] by simp
  have "\<forall>x\<in>set ?L. \<forall>y\<in>set ?L. py_lt x y = Inr (frequency_key x < frequency_key y)"
  proof (intro ballI)
    fix x y assume "x \<in> set ?L" "y \<in> set ?L"
    then obtain k k' where x: "x = PFrequency k (the (map_of d k))" "k \<in> fst ` set d"
        and y: "y = PFrequency k' (the (map_of d k'))" "k' \<in> fst ` set d"
      by auto
    have "str_subject k" "str_subject k'" "(\<exists>s. k = PStr s) \<longleftrightarrow> (\<exists>s. k' = PStr s)"
      using subj x(2) y(2) by (auto simp: str_subject_def)
    then show "py_lt x y = Inr (frequency_key x < frequency_key y)"
      unfolding x(1) y(1) by (rule py_lt_frequency_key)
  qed
  from list_sort_sorted [OF this] L show ?thesis
    by auto
qed

lemma py_lt_subject_key:
  assumes "str_subject t" "str_subject t'" "(\<exists>s. t = PStr s) \<longleftrightarrow> (\<exists>s. t' = PStr s)"
  shows "py_lt t t' = Inr (subject_key t < subject_key t')"
  using assms by (auto simp: str_subject_def split: bool.splits)

lemma subject_key_inj:
  assumes "str_subject t" "str_subject t'" "(\<exists>s. t = PStr s) \<longleftrightarrow> (\<exists>s. t' = PStr s)"
    and "subject_key t = subject_key t'"
  shows "t = t'"
  using assms by (auto simp: str_subject_def)

lemma counted_frequencies:
  assumes subj: "(\<forall>k\<in>set ks. \<exists>s. k = PStr s) \<or> (\<forall>k\<in>set ks. \<exists>a b. k = PTwoGram (PStr a) (PStr b))"
  shows "\<exists>fs. (case frequencies_of (count_tokens [] ks) (map fst (count_tokens [] ks)) [] of
                 Inl e \<Rightarrow> Inl e | Inr l \<Rightarrow> list_sort l) = Inr fs \<and>
      (\<forall>f\<in>set fs. \<exists>k\<in>set ks. f = PFrequency k (int (count_list ks k))) \<and>
      Frequency_token ` set fs = set ks \<and>
      distinct (map Frequency_token fs) \<and>
      sum_list (map Frequency_freq fs) = int (length ks) \<and>
      sorted_wrt (\<lambda>f g. py_lt f g = Inr True) fs \<and>
      sorted_wrt (\<lambda>f g. Frequency_freq g < Frequency_freq f \<or>
                  (Frequency_freq f = Frequency_freq g \<and>
                   py_lt (Frequency_token f) (Frequency_token g) = Inr True)) fs"
proof -
  let ?d = "count_tokens [] ks"
  let ?L = "map (\<lambda>k. PFrequency k (the (map_of ?d k))) (map fst ?d)"
  have dist: "distinct (map fst ?d)"
    by (simp add: count_tokens_distinct)
  have keys: "fst ` set ?d = set ks"
    by (simp add: count_tokens_keys)
  have val: "the (map_of ?d k) = int (count_list ks k)" if "k \<in> set ks" for k
    using count_tokens_lookup [OF that] by simp
  have look: "\<forall>p\<in>set ?d. map_of ?d (fst p) = Some (snd p)"
    using dist by auto
  have nonneg: "\<forall>p\<in>set ?d. 0 \<le> snd p"
  proof
    fix p assume p: "p \<in> set ?d"
    then have "fst p \<in> set ks"
      using keys by auto
    from count_tokens_lookup [OF this] look p show "0 \<le> snd p"
      by simp
  qed
  have subj': "(\<forall>k\<in>fst ` set ?d. \<exists>s. k = PStr s) \<or>
               (\<forall>k\<in>fst ` set ?d. \<exists>a b. k = PTwoGram (PStr a) (PStr b))"
    using subj unfolding keys .
  from frequencies_sorted [OF dist subj' nonneg]
  obtain fs where fs:
    "(case frequencies_of ?d (map fst ?d) [] of Inl e \<Rightarrow> Inl e | Inr l \<Rightarrow> list_sort l) = Inr fs"
    "mset fs = mset ?L" "sorted (map frequency_key fs)"
    by blast
  have elems: "\<exists>k\<in>set ks. f = PFrequency k (int (count_list ks k))" if "f \<in> set fs" for f
  proof -
    have "f \<in> set ?L"
      using that fs(2) by (metis set_mset_mset)
    then obtain k where "k \<in> fst ` set ?d" "f = PFrequency k (the (map_of ?d k))"
      by auto
    then show ?thesis
      using keys val by auto
  qed
  have toks: "mset (map Frequency_token fs) = mset (map fst ?d)"
    using fs(2) by (rule mset_map_token)
  then have tokset: "Frequency_token ` set fs = set ks"
    using keys by (metis mset_eq_setD set_map)
  have tokdist: "distinct (map Frequency_token fs)"
    using toks dist by (metis mset_eq_imp_distinct_iff)
  have "sum_list (map Frequency_freq fs) = sum_list (map (\<lambda>k. the (map_of ?d k)) (map fst ?d))"
    using fs(2) by (rule mset_map_freq)
  also have "\<dots> = sum_list (map snd ?d)"
    using dist by (rule sum_values_by_key)
  also have "\<dots> = int (length ks)"
    by (simp add: count_tokens_sum)
  finally have total: "sum_list (map Frequency_freq fs) = int (length ks)" .
  have kind: "str_subject (Frequency_token f) \<and> str_subject (Frequency_token g) \<and>
              ((\<exists>s. Frequency_token f = PStr s) \<longleftrightarrow> (\<exists>s. Frequency_token g = PStr s))"
    if "f \<in> set fs" "g \<in> set fs" for f g
  proof -
    have "Frequency_token f \<in> set ks" "Frequency_token g \<in> set ks"
      using that tokset by auto
    then show ?thesis
      using subj by (auto simp: str_subject_def)
  qed
  have inj: "inj_on frequency_key (set fs)"
  proof (rule inj_onI)
    fix f g assume fg: "f \<in> set fs" "g \<in> set fs" "frequency_key f = frequency_key g"
    from elems [OF fg(1)] elems [OF fg(2)] obtain k k'
      where f: "f = PFrequency k (int (count_list ks k))"
        and g: "g = PFrequency k' (int (count_list ks k'))"
      by blast
    have "subject_key (Frequency_token f) = subject_key (Frequency_token g)"
      using fg(3) by (simp add: frequency_key_def)
    with kind [OF fg(1,2)] have "Frequency_token f = Frequency_token g"
      by (blast intro: subject_key_inj)
    then show "f = g"
      using f g by simp
  qed
  have "distinct fs"
    using tokdist by (simp add: distinct_map)
  with inj have "distinct (map frequency_key fs)"
    by (simp add: distinct_map)
  with fs(3) have "sorted_wrt (<) (map frequency_key fs)"
    by (simp only: strict_sorted_iff)
  then have strict: "sorted_wrt (\<lambda>f g. frequency_key f < frequency_key g) fs"
    by (simp only: sorted_wrt_map)
  have lt: "py_lt f g = Inr (frequency_key f < frequency_key g)" if "f \<in> set fs" "g \<in> set fs" for f g
  proof -
    from elems [OF that(1)] elems [OF that(2)] obtain k c k' c'
      where f: "f = PFrequency k c" and g: "g = PFrequency k' c'"
      by blast
    have "str_subject k" "str_subject k'" "(\<exists>s. k = PStr s) \<longleftrightarrow> (\<exists>s. k' = PStr s)"
      using kind [OF that] unfolding f g by simp_all
    then show ?thesis
      unfolding f g by (rule py_lt_frequency_key)
  qed
  have s1: "sorted_wrt (\<lambda>f g. py_lt f g = Inr True) fs"
    using strict by (rule sorted_wrt_mono_rel [rotated]) (simp add: lt)
  have s2: "sorted_wrt (\<lambda>f g. Frequency_freq g < Frequency_freq f \<or>
                  (Frequency_freq f = Frequency_freq g \<and>
                   py_lt (Frequency_token f) (Frequency_token g) = Inr True)) fs"
    using strict
  proof (rule sorted_wrt_mono_rel [rotated])
    fix f g assume fg: "f \<in> set fs" "g \<in> set fs" "frequency_key f < frequency_key g"
    have "py_lt (Frequency_token f) (Frequency_token g) =
            Inr (subject_key (Frequency_token f) < subject_key (Frequency_token g))"
      using kind [OF fg(1,2)] by (blast intro: py_lt_subject_key)
    then show "Frequency_freq g < Frequency_freq f \<or>
                  (Frequency_freq f = Frequency_freq g \<and>
                   py_lt (Frequency_token f) (Frequency_token g) = Inr True)"
      using fg(3) by (auto simp: frequency_key_def)
  qed
  show ?thesis
    using fs(1) elems tokset tokdist total s1 s2 by blast
qed

section \<open>The claims about the frequency engine\<close>

text \<open>
  C1. \<^verbatim>\<open>compute_word_freq\<close> returns \<^verbatim>\<open>[]\<close> for \<^verbatim>\<open>None\<close> and for the empty list. For
  a non-empty list of tokens it returns (without raising) a list of \<^verbatim>\<open>Frequency\<close>
  objects in which every element pairs a token of the input with the number of its
  occurrences, every distinct token of the input is the subject of exactly one element,
  the counts add up to the length of the input, and the elements are in ascending order
  of \<^verbatim>\<open><\<close> on \<^verbatim>\<open>Frequency\<close>, that is, by descending count and, among equal counts,
  by ascending token.
\<close>

theorem compute_word_freq_correct:
  "compute_word_freq None = Inr [] \<and> compute_word_freq (Some []) = Inr [] \<and>
   (tokens \<noteq> [] \<longrightarrow>
     (\<exists>fs. compute_word_freq (Some tokens) = Inr fs \<and>
        (\<forall>f\<in>set fs. \<exists>w\<in>set tokens. f = PFrequency (PStr w) (int (count_list tokens w))) \<and>
        Frequency_token ` set fs = PStr ` set tokens \<and>
        distinct (map Frequency_token fs) \<and>
        sum_list (map Frequency_freq fs) = int (length tokens) \<and>
        sorted_wrt (\<lambda>f g. py_lt f g = Inr True) fs \<and>
        sorted_wrt (\<lambda>f g. Frequency_freq g < Frequency_freq f \<or>
                  (Frequency_freq f = Frequency_freq g \<and>
                   py_lt (Frequency_token f) (Frequency_token g) = Inr True)) fs))"
proof -
  have "\<exists>fs. compute_word_freq (Some tokens) = Inr fs \<and>
        (\<forall>f\<in>set fs. \<exists>w\<in>set tokens. f = PFrequency (PStr w) (int (count_list tokens w))) \<and>
        Frequency_token ` set fs = PStr ` set tokens \<and>
        distinct (map Frequency_token fs) \<and>
        sum_list (map Frequency_freq fs) = int (length tokens) \<and>
        sorted_wrt (\<lambda>f g. py_lt f g = Inr True) fs \<and>
        sorted_wrt (\<lambda>f g. Frequency_freq g < Frequency_freq f \<or>
                  (Frequency_freq f = Frequency_freq g \<and>
                   py_lt (Frequency_token f) (Frequency_token g) = Inr True)) fs"
    if ne: "tokens \<noteq> []"
  proof -
    let ?ks = "map PStr tokens"
    have "(\<forall>k\<in>set ?ks. \<exists>s. k = PStr s) \<or> (\<forall>k\<in>set ?ks. \<exists>a b. k = PTwoGram (PStr a) (PStr b))"
      by auto
    from counted_frequencies [OF this] obtain fs where fs:
      "(case frequencies_of (count_tokens [] ?ks) (map fst (count_tokens [] ?ks)) [] of
                 Inl e \<Rightarrow> Inl e | Inr l \<Rightarrow> list_sort l) = Inr fs"
      "\<forall>f\<in>set fs. \<exists>k\<in>set ?ks. f = PFrequency k (int (count_list ?ks k))"
      "Frequency_token ` set fs = set ?ks"
      "distinct (map Frequency_token fs)"
      "sum_list (map Frequency_freq fs) = int (length ?ks)"
      "sorted_wrt (\<lambda>f g. py_lt f g = Inr True) fs"
      "sorted_wrt (\<lambda>f g. Frequency_freq g < Frequency_freq f \<or>
                  (Frequency_freq f = Frequency_freq g \<and>
                   py_lt (Frequency_token f) (Frequency_token g) = Inr True)) fs"
      by blast
    have run: "compute_word_freq (Some tokens) = Inr fs"
      using ne fs(1) by (simp add: compute_word_freq_def)
    have cnt: "count_list ?ks (PStr w) = count_list tokens w" for w
      by (rule count_list_map_conv) (simp add: inj_def)
    have "\<forall>f\<in>set fs. \<exists>w\<in>set tokens. f = PFrequency (PStr w) (int (count_list tokens w))"
      using fs(2) cnt by auto
    then show ?thesis
      using run fs(3-7) by auto
  qed
  then show ?thesis
    by (simp add: compute_word_freq_def)
qed

theorem compute_word_freq_correct_witness:
  "compute_word_freq (Some [''this'', ''sentence'', ''repeats'', ''the'', ''word'', ''sentence'']) =
     Inr [PFrequency (PStr ''sentence'') 2, PFrequency (PStr ''repeats'') 1,
          PFrequency (PStr ''the'') 1, PFrequency (PStr ''this'') 1, PFrequency (PStr ''word'') 1] \<and>
   sum_list (map Frequency_freq
         [PFrequency (PStr ''sentence'') 2, PFrequency (PStr ''repeats'') 1,
          PFrequency (PStr ''the'') 1, PFrequency (PStr ''this'') 1, PFrequency (PStr ''word'') 1]) = 6"
proof -
  let ?X = "[''this'', ''sentence'', ''repeats'', ''the'', ''word'', ''sentence'']"
  have run: "compute_word_freq (Some ?X) =
     Inr [PFrequency (PStr ''sentence'') 2, PFrequency (PStr ''repeats'') 1,
          PFrequency (PStr ''the'') 1, PFrequency (PStr ''this'') 1, PFrequency (PStr ''word'') 1]"
    by code_simp
  have "?X \<noteq> []"
    by simp
  with compute_word_freq_correct [of ?X]
  obtain fs where "compute_word_freq (Some ?X) = Inr fs"
    "sum_list (map Frequency_freq fs) = int (length ?X)"
    by blast
  with run show ?thesis
    by simp
qed

lemma count_twograms_eq:
  assumes "\<forall>n\<in>set ns. n + 1 < length toks" "\<forall>t\<in>set toks. \<exists>s. t = PStr s"
  shows "count_twograms toks ns d =
           Inr (count_tokens d (map (\<lambda>n. PTwoGram (toks ! n) (toks ! (n + 1))) ns))"
  using assms
proof (induction ns arbitrary: d)
  case Nil
  then show ?case by simp
next
  case (Cons n ns)
  then have "n < length toks" "n + 1 < length toks"
    by auto
  then have "toks ! n \<in> set toks" "toks ! (n + 1) \<in> set toks"
    by (auto intro: nth_mem)
  with Cons.prems(2) obtain a b where "toks ! n = PStr a" "toks ! (n + 1) = PStr b"
    by blast
  then have "TwoGram_init (toks ! n) (toks ! (n + 1)) = Inr (PTwoGram (toks ! n) (toks ! (n + 1)))"
    by (simp add: TwoGram_init_def)
  then show ?case
    using Cons by simp
qed

lemma count_list_map_upt:
  "count_list (map g [0 ..< m]) y = card {j. j < m \<and> g j = y}"
proof -
  have "count_list (map g [0 ..< m]) y = card {i. i < length (map g [0 ..< m]) \<and> y = map g [0 ..< m] ! i}"
    by (simp only: count_list_eq_length_filter length_filter_conv_card)
  also have "{i. i < length (map g [0 ..< m]) \<and> y = map g [0 ..< m] ! i} = {j. j < m \<and> g j = y}"
    by auto
  finally show ?thesis .
qed

text \<open>
  C4. \<^verbatim>\<open>compute_twogram_freq\<close> returns \<^verbatim>\<open>[]\<close> for \<^verbatim>\<open>None\<close>, for the empty list
  and for a list of one token. For a list of \<open>n \<ge> 2\<close> tokens it returns (without
  raising) a list of \<^verbatim>\<open>Frequency\<close> objects whose subjects are exactly the
  \<^verbatim>\<open>TwoGram\<close>s of \<open>tokens[i]\<close> and \<open>tokens[i+1]\<close> for every index \<open>i\<close> with
  \<open>i + 1 < n\<close>, each distinct two-gram once, each with the number of indices at which it
  occurs as its count, and the counts add up to \<open>n - 1\<close>.
\<close>

theorem compute_twogram_freq_correct:
  "compute_twogram_freq None = Inr [] \<and>
   compute_twogram_freq (Some []) = Inr [] \<and>
   compute_twogram_freq (Some [t]) = Inr [] \<and>
   (2 \<le> length tokens \<longrightarrow>
     (\<exists>fs. compute_twogram_freq (Some tokens) = Inr fs \<and>
        Frequency_token ` set fs =
          {PTwoGram (PStr (tokens ! i)) (PStr (tokens ! (i + 1))) | i. i + 1 < length tokens} \<and>
        distinct (map Frequency_token fs) \<and>
        (\<forall>f\<in>set fs. \<exists>a b. f = PFrequency (PTwoGram (PStr a) (PStr b))
             (int (card {i. i + 1 < length tokens \<and> tokens ! i = a \<and> tokens ! (i + 1) = b}))) \<and>
        sum_list (map Frequency_freq fs) = int (length tokens) - 1))"
proof -
  have one: "compute_twogram_freq (Some [t]) = Inr []"
    by (simp add: compute_twogram_freq_def list_sort_def)
  have many: "\<exists>fs. compute_twogram_freq (Some tokens) = Inr fs \<and>
        Frequency_token ` set fs =
          {PTwoGram (PStr (tokens ! i)) (PStr (tokens ! (i + 1))) | i. i + 1 < length tokens} \<and>
        distinct (map Frequency_token fs) \<and>
        (\<forall>f\<in>set fs. \<exists>a b. f = PFrequency (PTwoGram (PStr a) (PStr b))
             (int (card {i. i + 1 < length tokens \<and> tokens ! i = a \<and> tokens ! (i + 1) = b}))) \<and>
        sum_list (map Frequency_freq fs) = int (length tokens) - 1"
    if len: "2 \<le> length tokens"
  proof -
    let ?toks = "map PStr tokens"
    let ?m = "length tokens - 1"
    let ?g = "\<lambda>n. PTwoGram (?toks ! n) (?toks ! (n + 1))"
    let ?ks = "map ?g [0 ..< ?m]"
    have g: "?g i = PTwoGram (PStr (tokens ! i)) (PStr (tokens ! (i + 1)))" if "i < ?m" for i
      using that by simp
    have "\<forall>n\<in>set [0 ..< ?m]. n + 1 < length ?toks" "\<forall>t\<in>set ?toks. \<exists>s. t = PStr s"
      by auto
    then have dict: "count_twograms ?toks [0 ..< ?m] [] = Inr (count_tokens [] ?ks)"
      by (rule count_twograms_eq)
    have "(\<forall>k\<in>set ?ks. \<exists>s. k = PStr s) \<or> (\<forall>k\<in>set ?ks. \<exists>a b. k = PTwoGram (PStr a) (PStr b))"
      by auto
    from counted_frequencies [OF this] obtain fs where fs:
      "(case frequencies_of (count_tokens [] ?ks) (map fst (count_tokens [] ?ks)) [] of
                 Inl e \<Rightarrow> Inl e | Inr l \<Rightarrow> list_sort l) = Inr fs"
      "\<forall>f\<in>set fs. \<exists>k\<in>set ?ks. f = PFrequency k (int (count_list ?ks k))"
      "Frequency_token ` set fs = set ?ks"
      "distinct (map Frequency_token fs)"
      "sum_list (map Frequency_freq fs) = int (length ?ks)"
      by blast
    have ne: "Some tokens \<noteq> Some []"
      using len by auto
    have run: "compute_twogram_freq (Some tokens) = Inr fs"
      unfolding compute_twogram_freq_def using ne fs(1) dict by simp
    have "set ?ks = {PTwoGram (PStr (tokens ! i)) (PStr (tokens ! (i + 1))) | i. i + 1 < length tokens}"
    proof -
      let ?h = "\<lambda>i. PTwoGram (PStr (tokens ! i)) (PStr (tokens ! (i + 1)))"
      have "set ?ks = ?g ` {0 ..< ?m}"
        by (simp only: set_map set_upt)
      also have "\<dots> = ?h ` {0 ..< ?m}"
        by (rule image_cong) (simp_all add: g)
      also have "{0 ..< ?m} = {i. i + 1 < length tokens}"
        by (auto simp: less_diff_conv)
      also have "?h ` {i. i + 1 < length tokens} = {?h i | i. i + 1 < length tokens}"
        by blast
      finally show ?thesis .
    qed
    with fs(3) have tokset: "Frequency_token ` set fs =
          {PTwoGram (PStr (tokens ! i)) (PStr (tokens ! (i + 1))) | i. i + 1 < length tokens}"
      by simp
    have counts: "\<exists>a b. f = PFrequency (PTwoGram (PStr a) (PStr b))
             (int (card {i. i + 1 < length tokens \<and> tokens ! i = a \<and> tokens ! (i + 1) = b}))"
      if "f \<in> set fs" for f
    proof -
      from fs(2) that obtain k where k: "k \<in> set ?ks" "f = PFrequency k (int (count_list ?ks k))"
        by blast
      then obtain i where i: "i < ?m" "k = ?g i"
        by auto
      let ?a = "tokens ! i" and ?b = "tokens ! (i + 1)"
      have k': "k = PTwoGram (PStr ?a) (PStr ?b)"
        using i g by simp
      have "count_list ?ks k = card {j. j < ?m \<and> ?g j = k}"
        by (rule count_list_map_upt)
      also have "{j. j < ?m \<and> ?g j = k} = {j. j + 1 < length tokens \<and> tokens ! j = ?a \<and> tokens ! (j + 1) = ?b}"
        unfolding k' by (intro Collect_cong) (auto simp: less_diff_conv)
      finally have "count_list ?ks k =
          card {j. j + 1 < length tokens \<and> tokens ! j = ?a \<and> tokens ! (j + 1) = ?b}" .
      then have "f = PFrequency (PTwoGram (PStr ?a) (PStr ?b))
          (int (card {j. j + 1 < length tokens \<and> tokens ! j = ?a \<and> tokens ! (j + 1) = ?b}))"
        using k(2) k' by simp
      then show ?thesis
        by (intro exI)
    qed
    have total: "sum_list (map Frequency_freq fs) = int (length tokens) - 1"
      using fs(5) len by (simp add: of_nat_diff)
    show ?thesis
    proof (intro exI [of _ fs] conjI ballI)
      show "compute_twogram_freq (Some tokens) = Inr fs"
        by (rule run)
    qed (fact tokset fs(4) total | erule counts)+
  qed
  have none: "compute_twogram_freq None = Inr []"
    by (simp add: compute_twogram_freq_def)
  have nil: "compute_twogram_freq (Some []) = Inr []"
    by (simp add: compute_twogram_freq_def)
  show ?thesis
    using none nil one many by (intro conjI impI)
qed


theorem compute_twogram_freq_correct_witness:
  "compute_twogram_freq (Some [''you'', ''think'', ''you'', ''know'', ''how'', ''you'', ''think'']) =
     Inr [PFrequency (PTwoGram (PStr ''you'') (PStr ''think'')) 2,
          PFrequency (PTwoGram (PStr ''how'') (PStr ''you'')) 1,
          PFrequency (PTwoGram (PStr ''know'') (PStr ''how'')) 1,
          PFrequency (PTwoGram (PStr ''think'') (PStr ''you'')) 1,
          PFrequency (PTwoGram (PStr ''you'') (PStr ''know'')) 1] \<and>
   sum_list (map Frequency_freq
         [PFrequency (PTwoGram (PStr ''you'') (PStr ''think'')) 2,
          PFrequency (PTwoGram (PStr ''how'') (PStr ''you'')) 1,
          PFrequency (PTwoGram (PStr ''know'') (PStr ''how'')) 1,
          PFrequency (PTwoGram (PStr ''think'') (PStr ''you'')) 1,
          PFrequency (PTwoGram (PStr ''you'') (PStr ''know'')) 1]) = 7 - 1"
proof -
  let ?X = "[''you'', ''think'', ''you'', ''know'', ''how'', ''you'', ''think'']"
  have run: "compute_twogram_freq (Some ?X) =
     Inr [PFrequency (PTwoGram (PStr ''you'') (PStr ''think'')) 2,
          PFrequency (PTwoGram (PStr ''how'') (PStr ''you'')) 1,
          PFrequency (PTwoGram (PStr ''know'') (PStr ''how'')) 1,
          PFrequency (PTwoGram (PStr ''think'') (PStr ''you'')) 1,
          PFrequency (PTwoGram (PStr ''you'') (PStr ''know'')) 1]"
    by code_simp
  have "2 \<le> length ?X"
    by simp
  with compute_twogram_freq_correct [of "''you''" ?X]
  obtain fs where "compute_twogram_freq (Some ?X) = Inr fs"
    "sum_list (map Frequency_freq fs) = int (length ?X) - 1"
    by blast
  with run show ?thesis
    by simp
qed

section \<open>The claims about the retrieval engine\<close>

text \<open>
  What \<^verbatim>\<open>_compute_tf_idf\<close> returns, for a raw count that is not negative and a corpus
  that is not empty: \<^verbatim>\<open>0.0\<close> for a term that is not in the table of document
  frequencies; the product of the two logarithms for a term that is in the table and in
  the index when the corpus has more than one document; and \<^verbatim>\<open>None\<close> for a term in the
  table otherwise (the \<^verbatim>\<open>else\<close> with \<^verbatim>\<open>return 0.0\<close> belongs to the outer \<^verbatim>\<open>if\<close>).
\<close>

lemma compute_tf_idf_cases:
  assumes "0 \<le> doc_tf term" "0 < len_docs"
  shows "compute_tf_idf dfs terms len_docs doc_tf term =
     (case dfs term of
        None \<Rightarrow> Inr (Some 0)
      | Some df \<Rightarrow>
          if df < - 1 then Inl (ValueError ''math domain error'')
          else if df = - 1 then Inl ZeroDivisionError
          else if term \<in> dom terms \<and> 1 < len_docs
            then Inr (Some (log 10 (of_int (1 + doc_tf term)) * log 10 (real len_docs / of_int (1 + df))))
          else Inr None)"
  using assms
  by (auto simp: compute_tf_idf_def math_log10_def Let_def divide_le_0_iff split: option.splits)

text \<open>
  C2, at the input where the code departs from it: a corpus of one document whose only
  term \<^verbatim>\<open>brick\<close> occurs three times in it. The claim has \<^verbatim>\<open>0.0\<close> for a corpus of
  exactly one document; the method returns \<^verbatim>\<open>None\<close>.
\<close>

theorem tf_idf_single_document_returns_None:
  "compute_tf_idf [''brick'' \<mapsto> 1] [''brick'' \<mapsto> 0] 1 (\<lambda>t. 3) ''brick'' = Inr None"
  by (simp add: compute_tf_idf_def math_log10_def)

lemma insert_desc_mset: "mset (insert_desc x ys) = add_mset x (mset ys)"
  by (induction ys) auto

lemma insert_desc_set: "set (insert_desc x ys) = insert x (set ys)"
  by (induction ys) auto

lemma insert_desc_sorted:
  "sorted_wrt (\<lambda>a b. snd b \<le> snd a) ys \<Longrightarrow> sorted_wrt (\<lambda>a b. snd b \<le> snd a) (insert_desc x ys)"
  by (induction ys) (auto simp: insert_desc_set)

lemma sorted_desc_from_props:
  "sorted_wrt (\<lambda>a b. snd b \<le> snd a) acc \<Longrightarrow>
     sorted_wrt (\<lambda>a b. snd b \<le> snd a) (sorted_desc_from acc xs) \<and>
     mset (sorted_desc_from acc xs) = mset acc + mset xs"
  by (induction xs arbitrary: acc) (auto simp: insert_desc_sorted insert_desc_mset)

lemma sorted_by_score_desc_props:
  "sorted_wrt (\<lambda>a b. snd b \<le> snd a) (sorted_by_score_desc items) \<and>
   mset (sorted_by_score_desc items) = mset items"
  using sorted_desc_from_props [of "[]" items] by (simp add: sorted_by_score_desc_def)

lemma insert_desc_stable:
  "sorted_wrt (\<lambda>a b. snd b \<le> snd a) ys \<Longrightarrow>
     filter (\<lambda>y. snd y = s) (insert_desc x ys) =
     filter (\<lambda>y. snd y = s) ys @ (if snd x = s then [x] else [])"
proof (induction ys)
  case Nil
  then show ?case by simp
next
  case (Cons y ys)
  show ?case
  proof (cases "snd y < snd x")
    case True
    then have "\<forall>z\<in>set (y # ys). snd z < snd x"
      using Cons.prems by auto
    then have "snd x = s \<Longrightarrow> filter (\<lambda>y. snd y = s) (y # ys) = []"
      by (auto simp: filter_empty_conv)
    then show ?thesis
      using True by auto
  next
    case False
    then show ?thesis
      using Cons by auto
  qed
qed

lemma sorted_desc_from_stable:
  "sorted_wrt (\<lambda>a b. snd b \<le> snd a) acc \<Longrightarrow>
     filter (\<lambda>y. snd y = s) (sorted_desc_from acc xs) =
     filter (\<lambda>y. snd y = s) acc @ filter (\<lambda>y. snd y = s) xs"
  by (induction xs arbitrary: acc) (auto simp: insert_desc_sorted insert_desc_stable)

lemma sorted_by_score_desc_stable:
  "filter (\<lambda>y. snd y = s) (sorted_by_score_desc items) = filter (\<lambda>y. snd y = s) items"
  using sorted_desc_from_stable [of "[]" s items] by (simp add: sorted_by_score_desc_def)

lemma slice_to_take: "\<exists>n. slice_to xs k = take n xs \<and> (0 \<le> k \<longrightarrow> n = nat k)"
  by (auto simp: slice_to_def)

lemma take_sorted_top:
  assumes "sorted_wrt (\<lambda>a b. snd b \<le> snd a) xs" "x \<in> set (take n xs)" "y \<in> set xs" "y \<notin> set (take n xs)"
  shows "snd y \<le> snd x"
proof -
  have "sorted_wrt (\<lambda>a b. snd b \<le> snd a) (take n xs @ drop n xs)"
    using assms(1) by simp
  then have "\<forall>a\<in>set (take n xs). \<forall>b\<in>set (drop n xs). snd b \<le> snd a"
    unfolding sorted_wrt_append by blast
  moreover have "y \<in> set (drop n xs)"
    using assms(3,4) by (metis Un_iff append_take_drop_id set_append)
  ultimately show ?thesis
    using assms(2) by blast
qed

text \<open>
  C3, as the claim states it, at three concrete inputs.
  \<^item> Two documents that share the title \<^verbatim>\<open>A\<close>, one score for that title, \<open>k = 1\<close>:
    both documents are returned, more than \<open>min(k, number of documents) = 1\<close>. The scores
    are kept by title, so documents of one title are selected together.
  \<^item> Two documents \<^verbatim>\<open>A\<close> and \<^verbatim>\<open>B\<close> and \<open>k = -1\<close>: the slice \<^verbatim>\<open>[:-1]\<close> keeps all
    but the last entry, and one document is returned, more than
    \<open>min(k, number of documents) = -1\<close>.
  \<^item> Two documents \<^verbatim>\<open>A\<close> and \<^verbatim>\<open>B\<close>, in this order in the corpus, with scores 1 and
    2, and \<open>k = 2\<close>: the method returns \<^verbatim>\<open>[A, B]\<close>, the entry of smaller score first,
    so the result is not ordered by non-increasing score.
\<close>

theorem get_top_k_sets_counterexample:
  "length (get_top_k_sets [\<lparr>title = ''A'', words = [''x'']\<rparr>, \<lparr>title = ''A'', words = [''y'']\<rparr>]
             [(''A'', 1)] 1) = 2 \<and>
   length (get_top_k_sets [\<lparr>title = ''A'', words = []\<rparr>, \<lparr>title = ''B'', words = []\<rparr>]
             [(''A'', 1), (''B'', 2)] (- 1)) = 1 \<and>
   get_top_k_sets [\<lparr>title = ''A'', words = []\<rparr>, \<lparr>title = ''B'', words = []\<rparr>]
       [(''A'', 1), (''B'', 2)] 2 =
     [\<lparr>title = ''A'', words = []\<rparr>, \<lparr>title = ''B'', words = []\<rparr>] \<and>
   score_of [(''A'', 1), (''B'', 2)] \<lparr>title = ''A'', words = []\<rparr> <
   score_of [(''A'', 1), (''B'', 2)] \<lparr>title = ''B'', words = []\<rparr>"
  by (simp add: get_top_k_sets_def sorted_by_score_desc_def slice_to_def score_of_def)

text \<open>
  C3, amended. \<^verbatim>\<open>get_top_k_sets\<close> returns the documents of the corpus whose title is
  the title of a selected entry, each as often as the corpus holds it. The selected
  entries are the slice \<^verbatim>\<open>[:k]\<close> of the score mapping sorted by descending score: they
  are entries of the mapping, no entry left out has a higher score than a selected one,
  entries of equal score are sorted in the order the mapping has them, and for
  \<open>k \<ge> 0\<close> they are the first \<open>k\<close> entries of the sorted mapping, at most \<open>k\<close> of them.
  For \<open>k \<ge> 0\<close> and a corpus whose documents have distinct titles, at most
  \<open>min(k, number of documents)\<close> documents are returned. Nothing is said about the order
  of the returned documents.
\<close>

theorem get_top_k_sets_selection:
  "mset (get_top_k_sets docs query_result k) =
     filter_mset (\<lambda>d. title d \<in> fst ` set (slice_to (sorted_by_score_desc query_result) k))
       (mset docs) \<and>
   set (slice_to (sorted_by_score_desc query_result) k) \<subseteq> set query_result \<and>
   (0 \<le> k \<longrightarrow> slice_to (sorted_by_score_desc query_result) k =
                take (nat k) (sorted_by_score_desc query_result)) \<and>
   sorted_wrt (\<lambda>a b. snd b \<le> snd a) (sorted_by_score_desc query_result) \<and>
   mset (sorted_by_score_desc query_result) = mset query_result \<and>
   (\<forall>x\<in>set (slice_to (sorted_by_score_desc query_result) k).
      \<forall>y\<in>set query_result - set (slice_to (sorted_by_score_desc query_result) k). snd y \<le> snd x) \<and>
   (\<forall>s. filter (\<lambda>y. snd y = s) (sorted_by_score_desc query_result) =
        filter (\<lambda>y. snd y = s) query_result) \<and>
   (0 \<le> k \<longrightarrow> length (slice_to (sorted_by_score_desc query_result) k) \<le> nat k) \<and>
   (0 \<le> k \<and> distinct (map title docs) \<longrightarrow>
      length (get_top_k_sets docs query_result k) \<le> min (nat k) (length docs))"
proof -
  let ?sorted = "sorted_by_score_desc query_result"
  let ?top = "slice_to ?sorted k"
  let ?res = "get_top_k_sets docs query_result k"
  obtain n where n: "?top = take n ?sorted" "0 \<le> k \<longrightarrow> n = nat k"
    using slice_to_take by blast
  have sorted: "sorted_wrt (\<lambda>a b. snd b \<le> snd a) ?sorted" and perm: "mset ?sorted = mset query_result"
    using sorted_by_score_desc_props by auto
  have seteq: "set ?sorted = set query_result"
    using perm by (rule mset_eq_setD)
  have res: "?res = filter (\<lambda>doc. title doc \<in> fst ` set ?top) docs"
    by (simp add: get_top_k_sets_def)
  have 1: "mset ?res = filter_mset (\<lambda>d. title d \<in> fst ` set ?top) (mset docs)"
    unfolding res by simp
  have 2: "?top = take (nat k) ?sorted" if "0 \<le> k"
    using that by (simp add: slice_to_def)
  have 3: "set ?top \<subseteq> set query_result"
    unfolding n(1) using seteq by (metis set_take_subset)
  have 4: "\<forall>x\<in>set ?top. \<forall>y\<in>set query_result - set ?top. snd y \<le> snd x"
    unfolding n(1) using take_sorted_top [OF sorted] seteq by auto
  have 5: "length ?top \<le> nat k" if "0 \<le> k"
    using n that by simp
  have 6: "length ?res \<le> min (nat k) (length docs)" if k: "0 \<le> k" and d: "distinct (map title docs)"
  proof -
    have "distinct (map title ?res)"
      unfolding res using d by (simp add: distinct_map_filter)
    then have "length ?res = card (title ` set ?res)"
      by (metis distinct_card length_map set_map)
    also have "\<dots> \<le> card (fst ` set ?top)"
      by (rule card_mono) (auto simp: res)
    also have "\<dots> \<le> length ?top"
      by (metis card_length length_map set_map)
    also have "\<dots> \<le> nat k"
      using 5 k by simp
    finally have "length ?res \<le> nat k" .
    moreover have "length ?res \<le> length docs"
      unfolding res by simp
    ultimately show ?thesis by simp
  qed
  have 7: "\<forall>s. filter (\<lambda>y. snd y = s) ?sorted = filter (\<lambda>y. snd y = s) query_result"
    by (simp add: sorted_by_score_desc_stable)
  show ?thesis
    using 1 2 3 4 5 6 7 sorted perm by (intro conjI impI) blast+
qed

theorem get_top_k_sets_selection_witness:
  "(0::int) \<le> 1 \<and>
   distinct (map title [\<lparr>title = ''A'', words = []\<rparr>, \<lparr>title = ''B'', words = []\<rparr>]) \<and>
   length (get_top_k_sets [\<lparr>title = ''A'', words = []\<rparr>, \<lparr>title = ''B'', words = []\<rparr>]
             [(''A'', 1), (''B'', 2)] 1)
     \<le> min (nat 1) (length [\<lparr>title = ''A'', words = []\<rparr>, \<lparr>title = ''B'', words = []\<rparr>])"
proof -
  have hyp: "(0::int) \<le> 1"
    "distinct (map title [\<lparr>title = ''A'', words = []\<rparr>, \<lparr>title = ''B'', words = []\<rparr>])"
    by simp_all
  with get_top_k_sets_selection
         [of "[\<lparr>title = ''A'', words = []\<rparr>, \<lparr>title = ''B'', words = []\<rparr>]"
             "[(''A'', 1), (''B'', 2)]" 1]
  have "length (get_top_k_sets [\<lparr>title = ''A'', words = []\<rparr>, \<lparr>title = ''B'', words = []\<rparr>]
             [(''A'', 1), (''B'', 2)] 1)
     \<le> min (nat 1) (length [\<lparr>title = ''A'', words = []\<rparr>, \<lparr>title = ''B'', words = []\<rparr>])"
    by blast
  with hyp show ?thesis
    by blast
qed

section \<open>The claim about the report formatter\<close>





lemma numeric_form_py_eq:
  "numeric_form x = numeric_form y \<Longrightarrow> py_eq x y = Inr True"
proof (induction x arbitrary: y)
  case PNone
  then show ?case by (cases y) (auto split: if_splits)
next
  case (PBool v)
  then show ?case by (cases y) (auto split: if_splits)
next
  case (PInt i)
  then show ?case by (cases y) (auto split: if_splits)
next
  case (PStr s)
  then show ?case by (cases y) (auto split: if_splits)
next
  case (PPair a c)
  then show ?case by (cases y) (auto split: if_splits)
next
  case (PTwoGram a c)
  then show ?case by (cases y) (auto split: if_splits)
next
  case (PFrequency t c)
  then show ?case by (cases y) (auto split: if_splits)
qed

text \<open>
  So two records can be compared whenever equal hashes are found on equal records only,
  that is, whenever the hash functions do not collide on the list.
\<close>

lemma comparable_without_collision:
  assumes "py_hash h x = py_hash h y \<longrightarrow> numeric_form x = numeric_form y"
  shows "py_hash h x = py_hash h y \<longrightarrow> (\<exists>b. py_eq x y = Inr b)"
  using assms numeric_form_py_eq by blast




text \<open>
  Records whose subjects are \<^verbatim>\<open>str\<close> tokens or two-grams of \<^verbatim>\<open>str\<close> tokens (the
  records the frequency engine builds) can always be compared, whatever the hash
  functions are, and they are their own numeric form.
\<close>

lemma py_eq_Frequency_str_subject:
  assumes "str_subject t" "str_subject t'"
  shows "py_eq (PFrequency t c) (PFrequency t' c') = Inr (PFrequency t c = PFrequency t' c')"
  using assms by (auto simp: str_subject_def split: bool.splits)

lemma numeric_form_str_subject:
  "str_subject t \<Longrightarrow> numeric_form (PFrequency t c) = PFrequency t c"
  by (auto simp: str_subject_def)



end
